theory Spec2Isabelle
  imports Complex_Main "HOL-Library.AList" "HOL-Library.Sublist"
begin

section \<open>Python values shared by both scripts\<close>

text \<open>
  The two scripts (\<^verbatim>\<open>scripts/moodle_sso_refresh.py\<close> and
  \<^verbatim>\<open>scripts/email_dashboard.py\<close>) work on strings, on JSON values and on
  dictionaries keyed by strings. A Python \<^verbatim>\<open>str\<close> is a \<^typ>\<open>string\<close>; a
  dictionary is an association list in insertion order, written with
  \<^const>\<open>map_of\<close> (lookup), \<^const>\<open>AList.update\<close> (item assignment: an existing key
  keeps its place, a new key goes last) and \<^const>\<open>AList.delete\<close> (\<^verbatim>\<open>pop\<close>).
  Numbers are real numbers: wall-clock seconds are floats in the source, and rounding
  is not modelled.
\<close>

datatype jval =
    JNull
  | JBool bool
  | JNum real
  | JStr string
  | JArr "jval list"
  | JObj "(string \<times> jval) list"

type_synonym jdict = "(string \<times> jval) list"

text \<open>\<^verbatim>\<open>d.get(k)\<close> and \<^verbatim>\<open>d.get(k, default)\<close>; Python's \<^verbatim>\<open>None\<close> is \<^const>\<open>JNull\<close>.\<close>

definition get_or :: "jdict \<Rightarrow> string \<Rightarrow> jval \<Rightarrow> jval" where
  "get_or d k dflt = (case map_of d k of None \<Rightarrow> dflt | Some v \<Rightarrow> v)"

definition get :: "jdict \<Rightarrow> string \<Rightarrow> jval" where
  "get d k = get_or d k JNull"

text \<open>Truthiness of a value, as \<^verbatim>\<open>if v:\<close> and \<^verbatim>\<open>not v\<close> test it.\<close>

fun truthy :: "jval \<Rightarrow> bool" where
  "truthy JNull = False"
| "truthy (JBool b) = b"
| "truthy (JNum x) = (x \<noteq> 0)"
| "truthy (JStr s) = (s \<noteq> [])"
| "truthy (JArr xs) = (xs \<noteq> [])"
| "truthy (JObj d) = (d \<noteq> [])"

text \<open>\<^verbatim>\<open>needle in hay\<close> on strings: \<open>needle\<close> occurs in \<open>hay\<close> as a contiguous run.\<close>

fun contains :: "'a list \<Rightarrow> 'a list \<Rightarrow> bool" where
  "contains n [] = (n = [])"
| "contains n (c # cs) = (prefix n (c # cs) \<or> contains n cs)"

text \<open>
  \<^verbatim>\<open>s.split(sep)\<close> for a non-empty separator: the leftmost occurrence of \<open>sep\<close> ends the
  current part and scanning resumes behind it. \<open>acc\<close> is the part read so far.
\<close>

fun split_from :: "'a list \<Rightarrow> 'a list \<Rightarrow> 'a list \<Rightarrow> 'a list list" where
  "split_from sep acc [] = [acc]"
| "split_from sep acc (c # cs) =
     (if prefix sep (c # cs) then acc # split_from sep [] (drop (length sep - 1) cs)
      else split_from sep (acc @ [c]) cs)"

definition split_str :: "string \<Rightarrow> string \<Rightarrow> string list" where
  "split_str s sep = split_from sep [] s"

text \<open>
  \<^verbatim>\<open>s.lower()\<close> on the ASCII letters. The only use compares the result with
  \<^verbatim>\<open>"post"\<close>, and no character outside ASCII lowercases to one of its letters.
\<close>

definition lower_char :: "char \<Rightarrow> char" where
  "lower_char c =
     (case map_of (zip ''ABCDEFGHIJKLMNOPQRSTUVWXYZ'' ''abcdefghijklmnopqrstuvwxyz'') c of
        None \<Rightarrow> c
      | Some l \<Rightarrow> l)"

definition lower :: "string \<Rightarrow> string" where
  "lower s = map lower_char s"

section \<open>\<^verbatim>\<open>moodle_sso_refresh.py\<close>: the token carried by the launch redirect\<close>

text \<open>
  Every failure of \<^verbatim>\<open>refresh_token\<close> is a call of \<^verbatim>\<open>err(msg)\<close>, which prints the
  message and leaves through \<^verbatim>\<open>sys.exit(1)\<close>. The constructors name the call sites in
  the order of the source, with the value the message shows; \<open>Uncaught\<close> stands for the
  Python exceptions the function does not catch. The exception type \<open>pyexc\<close> also serves
  \<^verbatim>\<open>email_dashboard.py\<close>, whose device-code flow raises \<^verbatim>\<open>RuntimeError\<close> (with the error code
  and description), \<^verbatim>\<open>TimeoutError\<close> and \<^verbatim>\<open>SystemExit\<close>.
\<close>

datatype pyexc =
    KeyError string
  | TypeError
  | AttributeError
  | ValueError
  | JSONDecodeError
  | RequestException
  | BinasciiError
  | SystemExit nat
  | RuntimeError jval jval
  | TimeoutError

datatype sso_error =
    ProtocolMismatch string       \<comment> \<open>\<^verbatim>\<open>Expected Microsoft login, got: {r.url}\<close>\<close>
  | ParseError                    \<comment> \<open>\<^verbatim>\<open>Could not parse Microsoft login page\<close>\<close>
  | FederationNotSupported jval   \<comment> \<open>\<^verbatim>\<open>Federated login not supported: {fed_url}\<close>\<close>
  | AuthFailed string string      \<comment> \<open>\<^verbatim>\<open>Microsoft auth error {code}: {msg}\<close>\<close>
  | SSOIncomplete string          \<comment> \<open>\<^verbatim>\<open>SSO flow did not complete. Final URL: {url}\<close>\<close>
  | UnexpectedResponse nat        \<comment> \<open>\<^verbatim>\<open>Expected redirect from launch.php, got {status}\<close>\<close>
  | NoTokenInRedirect             \<comment> \<open>\<^verbatim>\<open>No token in redirect URL\<close>\<close>
  | MalformedToken string         \<comment> \<open>\<^verbatim>\<open>Unexpected token format: {decoded[:50]}\<close>\<close>
  | Uncaught pyexc

text \<open>
  Lines 193 to 197: \<^verbatim>\<open>padding = 4 - len(raw) % 4; if padding != 4: raw += "=" * padding\<close>.
\<close>

definition restore_padding :: "string \<Rightarrow> string" where
  "restore_padding raw =
     (let padding = 4 - length raw mod 4
      in if padding \<noteq> 4 then raw @ replicate padding (CHR ''='') else raw)"

text \<open>
  Lines 200 to 205: \<^verbatim>\<open>parts = decoded.split(":::")\<close>, fewer than two parts is an error,
  otherwise \<^verbatim>\<open>parts[1]\<close> is returned.
\<close>

definition token_of_decoded :: "string \<Rightarrow> sso_error + string" where
  "token_of_decoded decoded =
     (let parts = split_str decoded '':::''
      in if length parts < 2 then Inl (MalformedToken (take 50 decoded))
         else Inr (parts ! 1))"

section \<open>Properties of the token decoding\<close>

lemma split_from_no_sep:
  "\<not> contains sep s \<Longrightarrow> split_from sep acc s = [acc @ s]"
  by (induction s arbitrary: acc) auto

lemma split_from_first:
  "c \<notin> set p \<Longrightarrow> split_from (c # c # c # []) acc (p @ c # c # c # rest)
     = (acc @ p) # split_from (c # c # c # []) [] rest"
  by (induction p arbitrary: acc) auto

lemma contains_colon:
  "contains (c # cs) s \<Longrightarrow> c \<in> set s"
  by (induction s) auto

lemma restore_padding_length: "length (restore_padding raw) mod 4 = 0"
  unfolding restore_padding_def Let_def by simp presburger

lemma restore_padding_append:
  "restore_padding raw = raw @ replicate ((4 - length raw mod 4) mod 4) (CHR ''='')"
  unfolding restore_padding_def Let_def by auto

lemma below_four: "(r::nat) < 4 \<Longrightarrow> r = 0 \<or> r = 1 \<or> r = 2 \<or> r = 3"
  by arith

lemma pad_count:
  assumes "(n + k) mod 4 = 0" and "k \<le> 3"
  shows "(4 - n mod 4) mod 4 = (k::nat)"
proof -
  define r where "r = n mod 4"
  have r: "r = 0 \<or> r = 1 \<or> r = 2 \<or> r = 3"
    by (rule below_four) (simp add: r_def)
  have k: "k = 0 \<or> k = 1 \<or> k = 2 \<or> k = 3"
    by (rule below_four) (use assms(2) in simp)
  have "(r + k) mod 4 = 0"
    using assms(1) by (simp add: r_def mod_add_left_eq)
  with r k have "(4 - r) mod 4 = k"
    by (elim disjE) simp_all
  then show ?thesis by (simp add: r_def)
qed

lemma restore_padding_strip:
  assumes "length enc mod 4 = 0" and "k \<le> 3" and "enc = stripped @ replicate k (CHR ''='')"
  shows "restore_padding stripped = enc"
proof -
  have "(length stripped + k) mod 4 = 0" using assms(1,3) by simp
  then have "(4 - length stripped mod 4) mod 4 = k"
    using assms(2) by (rule pad_count)
  then show ?thesis
    using assms(3) by (simp add: restore_padding_append)
qed

text \<open>
  C9. The padding step appends \<open>(4 - len mod 4) mod 4\<close> characters \<^verbatim>\<open>=\<close>: fewer than four,
  none when the length is already a multiple of four, and the result has a length that is
  a multiple of four. An encoding whose length is a multiple of four and from which
  \<open>k \<le> 3\<close> trailing \<^verbatim>\<open>=\<close> were stripped is restored exactly, so any decoder \<open>dec\<close>
  (\<^verbatim>\<open>base64.b64decode\<close> in the source) that returns \<open>payload\<close> on the encoding returns it on
  the restored string.
\<close>

theorem restore_padding_round_trip:
  "length (restore_padding raw) mod 4 = 0
   \<and> restore_padding raw = raw @ replicate ((4 - length raw mod 4) mod 4) (CHR ''='')
   \<and> (4 - length raw mod 4) mod 4 < 4
   \<and> (length raw mod 4 = 0 \<longrightarrow> restore_padding raw = raw)
   \<and> (length enc mod 4 = 0 \<and> k \<le> 3 \<and> enc = stripped @ replicate k (CHR ''='')
        \<and> dec enc = payload
      \<longrightarrow> restore_padding stripped = enc \<and> dec (restore_padding stripped) = payload)"
proof (intro conjI impI)
  show "length (restore_padding raw) mod 4 = 0"
    by (rule restore_padding_length)
  show "restore_padding raw = raw @ replicate ((4 - length raw mod 4) mod 4) (CHR ''='')"
    by (rule restore_padding_append)
  show "(4 - length raw mod 4) mod 4 < 4"
    by simp
  show "restore_padding raw = raw" if "length raw mod 4 = 0"
    using that by (simp add: restore_padding_def)
  assume h: "length enc mod 4 = 0 \<and> k \<le> 3 \<and> enc = stripped @ replicate k (CHR ''='')
    \<and> dec enc = payload"
  show r: "restore_padding stripped = enc"
    by (rule restore_padding_strip [OF h [THEN conjunct1] h [THEN conjunct2, THEN conjunct1]
          h [THEN conjunct2, THEN conjunct2, THEN conjunct1]])
  show "dec (restore_padding stripped) = payload"
    by (simp add: r h [THEN conjunct2, THEN conjunct2, THEN conjunct2])
qed

theorem restore_padding_round_trip_witness:
  "length ''QUI='' mod 4 = 0 \<and> (1::nat) \<le> 3
   \<and> ''QUI='' = ''QUI'' @ replicate 1 (CHR ''='')
   \<and> restore_padding ''QUI'' = ''QUI=''
   \<and> length ''QUJD'' mod 4 = 0 \<and> restore_padding ''QUJD'' = ''QUJD''"
  using restore_padding_round_trip [of "''QUJD''" "''QUI=''" 1 "''QUI''" id "''QUI=''"]
  by simp

text \<open>
  C4. A decoded string without the delimiter \<^verbatim>\<open>:::\<close> has one part and fails with
  \<open>MalformedToken\<close>; with two or more parts the second part is the result. For a passport
  \<open>p\<close> and a token \<open>t\<close> that hold no colon, \<^verbatim>\<open>p:::t\<close> and \<^verbatim>\<open>p:::t:::pt\<close> both give \<open>t\<close>.
\<close>

theorem token_of_decoded_parts:
  "(\<not> contains '':::'' s \<longrightarrow> token_of_decoded s = Inl (MalformedToken (take 50 s)))
   \<and> (2 \<le> length (split_str s '':::'') \<longrightarrow> token_of_decoded s = Inr (split_str s '':::'' ! 1))
   \<and> (CHR '':'' \<notin> set p \<and> CHR '':'' \<notin> set t \<longrightarrow>
        token_of_decoded (p @ '':::'' @ t) = Inr t
        \<and> token_of_decoded (p @ '':::'' @ t @ '':::'' @ pt) = Inr t)"
proof (intro conjI impI)
  assume "\<not> contains '':::'' s"
  then show "token_of_decoded s = Inl (MalformedToken (take 50 s))"
    by (simp add: token_of_decoded_def split_str_def split_from_no_sep)
next
  assume "2 \<le> length (split_str s '':::'')"
  then show "token_of_decoded s = Inr (split_str s '':::'' ! 1)"
    by (simp add: token_of_decoded_def Let_def)
next
  assume h: "CHR '':'' \<notin> set p \<and> CHR '':'' \<notin> set t"
  then have nt: "\<not> contains '':::'' t"
    using contains_colon [of "CHR '':''" "''::''" t] by auto
  have "split_str (p @ '':::'' @ t) '':::'' = [p, t]"
    using h split_from_first [of "CHR '':''" p "[]" t] split_from_no_sep [OF nt, of "[]"]
    by (simp add: split_str_def)
  then show "token_of_decoded (p @ '':::'' @ t) = Inr t"
    by (simp add: token_of_decoded_def)
next
  assume h: "CHR '':'' \<notin> set p \<and> CHR '':'' \<notin> set t"
  have "split_str (p @ '':::'' @ t @ '':::'' @ pt) '':::'' = p # t # split_str pt '':::''"
    using h split_from_first [of "CHR '':''" p "[]" "t @ '':::'' @ pt"]
      split_from_first [of "CHR '':''" t "[]" pt]
    by (simp add: split_str_def)
  then show "token_of_decoded (p @ '':::'' @ t @ '':::'' @ pt) = Inr t"
    by (simp add: token_of_decoded_def)
qed

theorem token_of_decoded_parts_witness:
  "token_of_decoded ''P:::T'' = Inr ''T''
   \<and> token_of_decoded ''P:::T:::PT'' = Inr ''T''
   \<and> token_of_decoded ''P'' = Inl (MalformedToken ''P'')
   \<and> 2 \<le> length (split_str ''12345:::abc:::def'' '':::'')
   \<and> token_of_decoded ''12345:::abc:::def'' = Inr ''abc''"
  using token_of_decoded_parts [of "''P''" "''P''" "''T''" "''PT''"]
    token_of_decoded_parts [of "''12345:::abc:::def''" "''P''" "''T''" "''PT''"]
  by (simp add: split_str_def)

section \<open>\<^verbatim>\<open>moodle_sso_refresh.py\<close>: \<^verbatim>\<open>FormParser\<close>\<close>

text \<open>
  \<^verbatim>\<open>FormParser\<close> subclasses the library's \<^verbatim>\<open>HTMLParser\<close> and overrides only
  \<^verbatim>\<open>handle_starttag\<close>. The library cuts the page into start tags and calls the method once
  per tag with the lower-cased tag name and the attribute list; an attribute without a
  value carries \<^verbatim>\<open>None\<close>. The parser object holds \<^verbatim>\<open>self.action\<close> and \<^verbatim>\<open>self.fields\<close>
  (here \<open>form_fields\<close>).
\<close>

type_synonym attrs = "(string \<times> string option) list"

record FormParser =
  action :: "string option"
  form_fields :: "(string \<times> string option) list"

text \<open>\<^verbatim>\<open>__init__\<close>: \<^verbatim>\<open>self.action = None; self.fields = {}\<close>.\<close>

definition FormParser_init :: FormParser where
  "FormParser_init = \<lparr>action = None, form_fields = []\<rparr>"

text \<open>\<^verbatim>\<open>dict(attrs)\<close>: a later pair with the same key replaces the earlier value.\<close>

definition dict_of :: "('k \<times> 'v) list \<Rightarrow> ('k \<times> 'v) list" where
  "dict_of kvs = foldl (\<lambda>d (k, v). AList.update k v d) [] kvs"

definition attr_get :: "attrs \<Rightarrow> string \<Rightarrow> string option \<Rightarrow> string option" where
  "attr_get d k dflt = (case map_of d k of None \<Rightarrow> dflt | Some v \<Rightarrow> v)"

text \<open>
  Line 40 and 41: \<^verbatim>\<open>if tag == "form" and d.get("method", "").lower() == "post":
  self.action = d.get("action", "")\<close>. A \<^verbatim>\<open>method\<close> attribute without a value is \<^verbatim>\<open>None\<close>, and
  \<^verbatim>\<open>None.lower()\<close> raises \<^verbatim>\<open>AttributeError\<close>.
\<close>

definition open_form :: "FormParser \<Rightarrow> string \<Rightarrow> attrs \<Rightarrow> pyexc + FormParser" where
  "open_form self tag d =
     (if tag = ''form'' then
        (case attr_get d ''method'' (Some '''') of
           None \<Rightarrow> Inl AttributeError
         | Some m \<Rightarrow>
             Inr (if lower m = ''post''
                  then self\<lparr>action := attr_get d ''action'' (Some '''')\<rparr> else self))
      else Inr self)"

text \<open>
  Lines 42 to 46: \<^verbatim>\<open>if tag == "input" and d.get("type") == "hidden":\<close> a non-empty
  \<^verbatim>\<open>name\<close> is stored with its \<^verbatim>\<open>value\<close> in \<^verbatim>\<open>self.fields\<close>.
\<close>

definition hidden_input :: "FormParser \<Rightarrow> string \<Rightarrow> attrs \<Rightarrow> FormParser" where
  "hidden_input self tag d =
     (if tag = ''input'' \<and> attr_get d ''type'' None = Some ''hidden'' then
        (let name = attr_get d ''name'' (Some '''');
             val = attr_get d ''value'' (Some '''')
         in case name of
              None \<Rightarrow> self
            | Some n \<Rightarrow>
                if n \<noteq> [] then self\<lparr>form_fields := AList.update n val (form_fields self)\<rparr>
                else self)
      else self)"

definition handle_starttag :: "FormParser \<Rightarrow> string \<Rightarrow> attrs \<Rightarrow> pyexc + FormParser" where
  "handle_starttag self tag attrs =
     (let d = dict_of attrs
      in case open_form self tag d of
           Inl e \<Rightarrow> Inl e
         | Inr self1 \<Rightarrow> Inr (hidden_input self1 tag d))"

text \<open>\<^verbatim>\<open>feed\<close> on the start tags of a page, in document order.\<close>

fun feed_tags :: "FormParser \<Rightarrow> (string \<times> attrs) list \<Rightarrow> pyexc + FormParser" where
  "feed_tags self [] = Inr self"
| "feed_tags self ((tag, attrs) # ts) =
     (case handle_starttag self tag attrs of
        Inl e \<Rightarrow> Inl e
      | Inr self1 \<Rightarrow> feed_tags self1 ts)"

subsection \<open>What a second form does to the tracked fields\<close>

lemma hidden_input_keys:
  "fst ` set (form_fields self) \<subseteq> fst ` set (form_fields (hidden_input self tag d))"
  by (auto simp: hidden_input_def Let_def AList.dom_update split: option.splits)

lemma open_form_fields:
  "open_form self tag d = Inr self1 \<Longrightarrow> form_fields self1 = form_fields self"
  by (auto simp: open_form_def split: if_splits option.splits)

lemma handle_starttag_keys:
  assumes h: "handle_starttag self tag attrs = Inr self'"
  shows "fst ` set (form_fields self) \<subseteq> fst ` set (form_fields self')"
proof -
  from h obtain self1 where o: "open_form self tag (dict_of attrs) = Inr self1"
    and r: "self' = hidden_input self1 tag (dict_of attrs)"
    by (auto simp: handle_starttag_def Let_def split: sum.splits)
  show ?thesis
    using hidden_input_keys [of self1 tag "dict_of attrs"] open_form_fields [OF o] r by simp
qed

lemma feed_tags_keys:
  "feed_tags self ts = Inr self' \<Longrightarrow>
     fst ` set (form_fields self) \<subseteq> fst ` set (form_fields self')"
proof (induction ts arbitrary: self)
  case Nil
  then show ?case by simp
next
  case (Cons t ts)
  obtain tag attrs where t: "t = (tag, attrs)" by (cases t)
  from Cons.prems t obtain self1 where
    h: "handle_starttag self tag attrs = Inr self1" and f: "feed_tags self1 ts = Inr self'"
    by (auto split: sum.splits)
  from handle_starttag_keys [OF h] Cons.IH [OF f] show ?case by blast
qed

lemma handle_starttag_post_form:
  assumes "map_of (dict_of attrs) ''method'' = Some (Some m)" and "lower m = ''post''"
  shows "handle_starttag self ''form'' attrs
    = Inr (self\<lparr>action := attr_get (dict_of attrs) ''action'' (Some '''')\<rparr>)"
  using assms
  by (simp add: handle_starttag_def Let_def open_form_def hidden_input_def attr_get_def)

lemma feed_tags_append:
  "feed_tags self (ts1 @ ts2)
     = (case feed_tags self ts1 of Inl e \<Rightarrow> Inl e | Inr self1 \<Rightarrow> feed_tags self1 ts2)"
  by (induction ts1 arbitrary: self) (auto split: sum.splits)

lemma handle_starttag_hidden_input:
  assumes "map_of (dict_of attrs) ''type'' = Some (Some ''hidden'')"
    and "map_of (dict_of attrs) ''name'' = Some (Some n)" and "n \<noteq> []"
  shows "handle_starttag self ''input'' attrs
    = Inr (self\<lparr>form_fields :=
        AList.update n (attr_get (dict_of attrs) ''value'' (Some '''')) (form_fields self)\<rparr>)"
  using assms
  by (simp add: handle_starttag_def Let_def open_form_def hidden_input_def attr_get_def)

lemma handle_starttag_rel:
  assumes "handle_starttag s0 tag attrs = Inr s0'" and "action s = action s0"
    and "map_of (form_fields s) = M ++ map_of (form_fields s0)"
  shows "\<exists>s'. handle_starttag s tag attrs = Inr s' \<and> action s' = action s0'
    \<and> map_of (form_fields s') = M ++ map_of (form_fields s0')"
  using assms
  by (auto simp: handle_starttag_def Let_def open_form_def hidden_input_def AList.update_conv'
      split: if_splits option.splits)

lemma feed_tags_rel:
  assumes "feed_tags s0 ts = Inr s0'" and "action s = action s0"
    and "map_of (form_fields s) = M ++ map_of (form_fields s0)"
  shows "\<exists>s'. feed_tags s ts = Inr s' \<and> action s' = action s0'
    \<and> map_of (form_fields s') = M ++ map_of (form_fields s0')"
  using assms
proof (induction ts arbitrary: s s0)
  case Nil
  then show ?case by simp
next
  case (Cons t ts)
  obtain tag attrs where t: "t = (tag, attrs)" by (cases t)
  from Cons.prems(1) t obtain s1 where
    h: "handle_starttag s0 tag attrs = Inr s1" and f: "feed_tags s1 ts = Inr s0'"
    by (auto split: sum.splits)
  from handle_starttag_rel [OF h Cons.prems(2) Cons.prems(3)] obtain s2 where
    h2: "handle_starttag s tag attrs = Inr s2" and a2: "action s2 = action s1"
    and m2: "map_of (form_fields s2) = M ++ map_of (form_fields s1)"
    by blast
  from Cons.IH [OF f a2 m2] obtain s' where
    "feed_tags s2 ts = Inr s'" "action s' = action s0'"
    "map_of (form_fields s') = M ++ map_of (form_fields s0')"
    by blast
  then show ?case using h2 t by simp
qed

lemma sibling_forms:
  assumes h1: "feed_tags FormParser_init ts1 = Inr p1"
    and h2: "feed_tags FormParser_init ((''form'', attrs2) # ts2) = Inr p2"
    and m: "map_of (dict_of attrs2) ''method'' = Some (Some m2)" and l: "lower m2 = ''post''"
  shows "\<exists>p. feed_tags FormParser_init (ts1 @ (''form'', attrs2) # ts2) = Inr p
    \<and> action p = action p2
    \<and> map_of (form_fields p) = map_of (form_fields p1) ++ map_of (form_fields p2)"
proof -
  let ?a = "attr_get (dict_of attrs2) ''action'' (Some '''')"
  have f0: "feed_tags (FormParser_init\<lparr>action := ?a\<rparr>) ts2 = Inr p2"
    using h2 handle_starttag_post_form [OF m l, of FormParser_init] by simp
  have "\<exists>p. feed_tags (p1\<lparr>action := ?a\<rparr>) ts2 = Inr p \<and> action p = action p2
    \<and> map_of (form_fields p) = map_of (form_fields p1) ++ map_of (form_fields p2)"
    by (rule feed_tags_rel [OF f0]) (simp_all add: FormParser_init_def)
  then show ?thesis
    using h1 handle_starttag_post_form [OF m l, of p1] by (simp add: feed_tags_append)
qed

text \<open>
  C1, as the source has it. A POST form tag replaces the tracked action and leaves the
  tracked hidden fields as they are. A hidden input with a non-empty name is stored under
  that name, replacing the value a field of the same name had. No name tracked at any
  point of a page is dropped later. So for two sibling POST forms, each of which the
  parser reads without error on its own, the page holding one after the other is read
  without error: the action is the one the second form gives alone, and the field
  mapping is the first form's overridden by the second form's, so that every hidden field
  of the first form is still there.
\<close>

theorem post_form_keeps_fields:
  "(map_of (dict_of attrs) ''method'' = Some (Some m) \<and> lower m = ''post'' \<longrightarrow>
      handle_starttag self ''form'' attrs
        = Inr (self\<lparr>action := attr_get (dict_of attrs) ''action'' (Some '''')\<rparr>))
   \<and> (map_of (dict_of iattrs) ''type'' = Some (Some ''hidden'')
       \<and> map_of (dict_of iattrs) ''name'' = Some (Some n) \<and> n \<noteq> [] \<longrightarrow>
        handle_starttag self ''input'' iattrs
          = Inr (self\<lparr>form_fields :=
              AList.update n (attr_get (dict_of iattrs) ''value'' (Some '''')) (form_fields self)\<rparr>)
        \<and> map_of (AList.update n (attr_get (dict_of iattrs) ''value'' (Some '''')) (form_fields self))
          = (map_of (form_fields self))(n \<mapsto> attr_get (dict_of iattrs) ''value'' (Some '''')))
   \<and> (feed_tags self ts = Inr self1 \<longrightarrow>
        fst ` set (form_fields self) \<subseteq> fst ` set (form_fields self1))
   \<and> (feed_tags FormParser_init ts1 = Inr p1
       \<and> feed_tags FormParser_init ((''form'', attrs) # ts2) = Inr p2
       \<and> map_of (dict_of attrs) ''method'' = Some (Some m) \<and> lower m = ''post'' \<longrightarrow>
        (\<exists>p. feed_tags FormParser_init (ts1 @ (''form'', attrs) # ts2) = Inr p
           \<and> action p = action p2
           \<and> map_of (form_fields p) = map_of (form_fields p1) ++ map_of (form_fields p2)
           \<and> fst ` set (form_fields p1) \<subseteq> fst ` set (form_fields p)))"
proof (intro conjI impI)
  assume "map_of (dict_of attrs) ''method'' = Some (Some m) \<and> lower m = ''post''"
  then show "handle_starttag self ''form'' attrs
        = Inr (self\<lparr>action := attr_get (dict_of attrs) ''action'' (Some '''')\<rparr>)"
    using handle_starttag_post_form [of attrs m self] by simp
next
  assume "map_of (dict_of iattrs) ''type'' = Some (Some ''hidden'')
       \<and> map_of (dict_of iattrs) ''name'' = Some (Some n) \<and> n \<noteq> []"
  then show "handle_starttag self ''input'' iattrs
          = Inr (self\<lparr>form_fields :=
              AList.update n (attr_get (dict_of iattrs) ''value'' (Some '''')) (form_fields self)\<rparr>)"
    using handle_starttag_hidden_input [of iattrs n self] by simp
next
  show "map_of (AList.update n (attr_get (dict_of iattrs) ''value'' (Some '''')) (form_fields self))
          = (map_of (form_fields self))(n \<mapsto> attr_get (dict_of iattrs) ''value'' (Some ''''))"
    by (rule AList.update_conv')
next
  assume "feed_tags self ts = Inr self1"
  then show "fst ` set (form_fields self) \<subseteq> fst ` set (form_fields self1)"
    by (rule feed_tags_keys)
next
  assume a: "feed_tags FormParser_init ts1 = Inr p1
       \<and> feed_tags FormParser_init ((''form'', attrs) # ts2) = Inr p2
       \<and> map_of (dict_of attrs) ''method'' = Some (Some m) \<and> lower m = ''post''"
  from sibling_forms [of ts1 p1 attrs ts2 p2 m] a obtain p where
    p: "feed_tags FormParser_init (ts1 @ (''form'', attrs) # ts2) = Inr p"
      "action p = action p2"
      "map_of (form_fields p) = map_of (form_fields p1) ++ map_of (form_fields p2)"
    by blast
  have "dom (map_of (form_fields p1)) \<subseteq> dom (map_of (form_fields p))"
    by (simp add: p(3))
  then have "fst ` set (form_fields p1) \<subseteq> fst ` set (form_fields p)"
    by (simp only: dom_map_of_conv_image_fst)
  with p show "\<exists>p. feed_tags FormParser_init (ts1 @ (''form'', attrs) # ts2) = Inr p
           \<and> action p = action p2
           \<and> map_of (form_fields p) = map_of (form_fields p1) ++ map_of (form_fields p2)
           \<and> fst ` set (form_fields p1) \<subseteq> fst ` set (form_fields p)"
    by blast
qed

theorem post_form_keeps_fields_witness:
  "map_of (dict_of [(''method'', Some ''POST''), (''action'', Some ''/acs'')]) ''method''
     = Some (Some ''POST'')
   \<and> lower ''POST'' = ''post''
   \<and> handle_starttag \<lparr>action = Some ''/first'', form_fields = [(''csrf'', Some ''abc'')]\<rparr>
        ''form'' [(''method'', Some ''POST''), (''action'', Some ''/acs'')]
      = Inr \<lparr>action = Some ''/acs'', form_fields = [(''csrf'', Some ''abc'')]\<rparr>
   \<and> map_of (dict_of [(''type'', Some ''hidden''), (''name'', Some ''csrf''),
                       (''value'', Some ''xyz'')]) ''type'' = Some (Some ''hidden'')
   \<and> map_of (dict_of [(''type'', Some ''hidden''), (''name'', Some ''csrf''),
                       (''value'', Some ''xyz'')]) ''name'' = Some (Some ''csrf'')
   \<and> handle_starttag \<lparr>action = Some ''/first'', form_fields = [(''csrf'', Some ''abc'')]\<rparr>
        ''input'' [(''type'', Some ''hidden''), (''name'', Some ''csrf''), (''value'', Some ''xyz'')]
      = Inr \<lparr>action = Some ''/first'', form_fields = [(''csrf'', Some ''xyz'')]\<rparr>
   \<and> feed_tags \<lparr>action = Some ''/first'', form_fields = [(''csrf'', Some ''abc'')]\<rparr>
        [(''input'', [(''type'', Some ''hidden''), (''name'', Some ''SAMLResponse''),
                      (''value'', Some ''PHNhbWw+'')])]
      = Inr \<lparr>action = Some ''/first'',
             form_fields = [(''csrf'', Some ''abc''), (''SAMLResponse'', Some ''PHNhbWw+'')]\<rparr>
   \<and> fst ` set [(''csrf'', Some ''abc'')]
        \<subseteq> fst ` set [(''csrf'', Some ''abc''), (''SAMLResponse'', Some ''PHNhbWw+'')]
   \<and> feed_tags FormParser_init
        [(''form'', [(''method'', Some ''post''), (''action'', Some ''/first'')]),
         (''input'', [(''type'', Some ''hidden''), (''name'', Some ''csrf''),
                      (''value'', Some ''abc'')])]
      = Inr \<lparr>action = Some ''/first'', form_fields = [(''csrf'', Some ''abc'')]\<rparr>
   \<and> feed_tags FormParser_init
        [(''form'', [(''method'', Some ''POST''), (''action'', Some ''/acs'')]),
         (''input'', [(''type'', Some ''hidden''), (''name'', Some ''SAMLResponse''),
                      (''value'', Some ''PHNhbWw+'')])]
      = Inr \<lparr>action = Some ''/acs'', form_fields = [(''SAMLResponse'', Some ''PHNhbWw+'')]\<rparr>
   \<and> (\<exists>p. feed_tags FormParser_init
        ([(''form'', [(''method'', Some ''post''), (''action'', Some ''/first'')]),
          (''input'', [(''type'', Some ''hidden''), (''name'', Some ''csrf''),
                       (''value'', Some ''abc'')])]
         @ (''form'', [(''method'', Some ''POST''), (''action'', Some ''/acs'')])
         # [(''input'', [(''type'', Some ''hidden''), (''name'', Some ''SAMLResponse''),
                         (''value'', Some ''PHNhbWw+'')])]) = Inr p
        \<and> action p = Some ''/acs''
        \<and> map_of (form_fields p)
            = map_of [(''csrf'', Some ''abc'')] ++ map_of [(''SAMLResponse'', Some ''PHNhbWw+'')]
        \<and> fst ` set [(''csrf'', Some ''abc'')] \<subseteq> fst ` set (form_fields p))"
proof -
  let ?attrs = "[(''method'', Some ''POST''), (''action'', Some ''/acs'')]"
  let ?iattrs = "[(''type'', Some ''hidden''), (''name'', Some ''csrf''), (''value'', Some ''xyz'')]"
  let ?self = "\<lparr>action = Some ''/first'', form_fields = [(''csrf'', Some ''abc'')]\<rparr>"
  let ?ts = "[(''input'', [(''type'', Some ''hidden''), (''name'', Some ''SAMLResponse''),
                      (''value'', Some ''PHNhbWw+'')])]"
  let ?self1 = "\<lparr>action = Some ''/first'',
             form_fields = [(''csrf'', Some ''abc''), (''SAMLResponse'', Some ''PHNhbWw+'')]\<rparr>"
  let ?ts1 = "[(''form'', [(''method'', Some ''post''), (''action'', Some ''/first'')]),
         (''input'', [(''type'', Some ''hidden''), (''name'', Some ''csrf''),
                      (''value'', Some ''abc'')])]"
  let ?p1 = "\<lparr>action = Some ''/first'', form_fields = [(''csrf'', Some ''abc'')]\<rparr>"
  let ?p2 = "\<lparr>action = Some ''/acs'', form_fields = [(''SAMLResponse'', Some ''PHNhbWw+'')]\<rparr>"
  have m: "map_of (dict_of ?attrs) ''method'' = Some (Some ''POST'') \<and> lower ''POST'' = ''post''"
    by code_simp
  have a: "attr_get (dict_of ?attrs) ''action'' (Some '''') = Some ''/acs''"
    by code_simp
  have i: "map_of (dict_of ?iattrs) ''type'' = Some (Some ''hidden'')
      \<and> map_of (dict_of ?iattrs) ''name'' = Some (Some ''csrf'') \<and> ''csrf'' \<noteq> []"
    by code_simp
  have v: "attr_get (dict_of ?iattrs) ''value'' (Some '''') = Some ''xyz''"
    by code_simp
  have f: "feed_tags ?self ?ts = Inr ?self1"
    by code_simp
  have f1: "feed_tags FormParser_init ?ts1 = Inr ?p1"
    by code_simp
  have f2: "feed_tags FormParser_init ((''form'', ?attrs) # ?ts) = Inr ?p2"
    by code_simp
  note t = post_form_keeps_fields
    [where attrs = ?attrs and m = "''POST''" and self = ?self and iattrs = ?iattrs
       and n = "''csrf''" and ts = ?ts and ?self1.0 = ?self1 and ?ts1.0 = ?ts1 and ?p1.0 = ?p1
       and ?ts2.0 = ?ts and ?p2.0 = ?p2]
  have cA: "handle_starttag ?self ''form'' ?attrs
      = Inr \<lparr>action = Some ''/acs'', form_fields = [(''csrf'', Some ''abc'')]\<rparr>"
    using t [THEN conjunct1, THEN mp, OF m] by (simp add: a)
  have cB: "handle_starttag ?self ''input'' ?iattrs
      = Inr \<lparr>action = Some ''/first'', form_fields = [(''csrf'', Some ''xyz'')]\<rparr>"
    using t [THEN conjunct2, THEN conjunct1, THEN mp, OF i, THEN conjunct1] by (simp add: v)
  have cC: "fst ` set [(''csrf'', Some ''abc'')]
        \<subseteq> fst ` set [(''csrf'', Some ''abc''), (''SAMLResponse'', Some ''PHNhbWw+'')]"
    using t [THEN conjunct2, THEN conjunct2, THEN conjunct1, THEN mp, OF f] by simp
  have h: "feed_tags FormParser_init ?ts1 = Inr ?p1
       \<and> feed_tags FormParser_init ((''form'', ?attrs) # ?ts) = Inr ?p2
       \<and> map_of (dict_of ?attrs) ''method'' = Some (Some ''POST'') \<and> lower ''POST'' = ''post''"
    using f1 f2 m by (intro conjI) (rule f1, rule f2, rule m [THEN conjunct1], rule m [THEN conjunct2])
  have cD: "\<exists>p. feed_tags FormParser_init (?ts1 @ (''form'', ?attrs) # ?ts) = Inr p
        \<and> action p = Some ''/acs''
        \<and> map_of (form_fields p)
            = map_of [(''csrf'', Some ''abc'')] ++ map_of [(''SAMLResponse'', Some ''PHNhbWw+'')]
        \<and> fst ` set [(''csrf'', Some ''abc'')] \<subseteq> fst ` set (form_fields p)"
    using t [THEN conjunct2, THEN conjunct2, THEN conjunct2, THEN mp, OF h] by simp
  show ?thesis
    by (intro conjI) (rule m [THEN conjunct1] m [THEN conjunct2] cA i [THEN conjunct1]
      i [THEN conjunct2, THEN conjunct1] cB f cC f1 f2 cD)+
qed

text \<open>
  The claim as the specification states it fails on a page with two sibling POST forms of
  which only the second carries \<^verbatim>\<open>SAMLResponse\<close>: the result holds the first form's hidden
  field \<^verbatim>\<open>csrf\<close> next to the second form's action and field.
\<close>

theorem sibling_forms_conflated_counterexample:
  "feed_tags FormParser_init
     [(''form'', [(''method'', Some ''post''), (''action'', Some ''/first'')]),
      (''input'', [(''type'', Some ''hidden''), (''name'', Some ''csrf''), (''value'', Some ''abc'')]),
      (''form'', [(''method'', Some ''post''), (''action'', Some ''/acs'')]),
      (''input'', [(''type'', Some ''hidden''), (''name'', Some ''SAMLResponse''),
                   (''value'', Some ''PHNhbWw+'')])]
   = Inr \<lparr>action = Some ''/acs'',
          form_fields = [(''csrf'', Some ''abc''), (''SAMLResponse'', Some ''PHNhbWw+'')]\<rparr>
   \<and> [(''csrf'', Some ''abc''), (''SAMLResponse'', Some ''PHNhbWw+'')]
        \<noteq> [(''SAMLResponse'', Some ''PHNhbWw+'')]"
  by code_simp

section \<open>\<^verbatim>\<open>moodle_sso_refresh.py\<close>: \<^verbatim>\<open>refresh_token\<close>\<close>

text \<open>
  \<^verbatim>\<open>refresh_token\<close> drives one \<^verbatim>\<open>requests.Session\<close> through a fixed sequence of requests.
  The network is a script: \<open>replies\<close> are the responses still to come, one per request, and
  \<open>sent\<close> is the log of the requests issued so far. A request with no reply left is a
  transport failure (\<^verbatim>\<open>requests.RequestException\<close>), which the function does not catch.
\<close>

record response =
  r_url :: string                  \<comment> \<open>\<^verbatim>\<open>r.url\<close>, after redirects\<close>
  r_text :: string                 \<comment> \<open>\<^verbatim>\<open>r.text\<close>\<close>
  r_status :: nat                  \<comment> \<open>\<^verbatim>\<open>r.status_code\<close>\<close>
  r_location :: "string option"    \<comment> \<open>\<^verbatim>\<open>r.headers.get("Location")\<close>\<close>

datatype request =
    Get string
  | PostJson string jdict
  | PostForm string "(string \<times> jval) list"

record session =
  replies :: "response list"
  sent :: "request list"

definition send :: "request \<Rightarrow> session \<Rightarrow> (sso_error + response) \<times> session" where
  "send rq s =
     (case replies s of
        [] \<Rightarrow> (Inl (Uncaught RequestException), s\<lparr>sent := sent s @ [rq]\<rparr>)
      | r # rs \<Rightarrow> (Inr r, s\<lparr>replies := rs, sent := sent s @ [rq]\<rparr>))"

text \<open>
  The library functions the flow calls on page text are parameters of the model: the
  three regular-expression searches (each returns the matched group, or \<open>None\<close> when there is
  no match), \<^verbatim>\<open>json.loads\<close> (\<open>None\<close> when it raises), \<^verbatim>\<open>urljoin\<close>, the start tags
  \<^verbatim>\<open>HTMLParser.feed\<close> reports, and \<^verbatim>\<open>base64.b64decode(raw).decode(errors="replace")\<close>
  (\<open>None\<close> when the decoder raises).
\<close>

record lib =
  find_config :: "string \<Rightarrow> string option"
  find_aadsts :: "string \<Rightarrow> string option"
  find_errtxt :: "string \<Rightarrow> string option"
  find_token :: "string \<Rightarrow> string option"
  json_loads :: "string \<Rightarrow> jval option"
  urljoin :: "string \<Rightarrow> string \<Rightarrow> string"
  starttags :: "string \<Rightarrow> (string \<times> attrs) list"
  b64decode :: "string \<Rightarrow> string option"

definition MOODLE_URL :: string where
  "MOODLE_URL = ''https://qmplus.qmul.ac.uk''"

definition SAML_IDP :: string where
  "SAML_IDP = ''4eb950c6f0e1110dc8e14b5cf41532d7''"

definition MS_BASE :: string where
  "MS_BASE = ''https://login.microsoftonline.com''"

text \<open>Sequencing: the first failure ends the run, with the session as it then is.\<close>

definition and_then ::
  "('e + 'a) \<times> 's \<Rightarrow> ('a \<Rightarrow> 's \<Rightarrow> ('e + 'b) \<times> 's) \<Rightarrow> ('e + 'b) \<times> 's" where
  "and_then m f = (case m of (Inl e, s) \<Rightarrow> (Inl e, s) | (Inr x, s) \<Rightarrow> f x s)"

text \<open>\<^verbatim>\<open>json.loads\<close> of a page configuration blob; the flow uses the result as a dictionary.\<close>

definition load_config :: "lib \<Rightarrow> string \<Rightarrow> sso_error + jdict" where
  "load_config L blob =
     (case json_loads L blob of
        None \<Rightarrow> Inl (Uncaught JSONDecodeError)
      | Some (JObj d) \<Rightarrow> Inr d
      | Some _ \<Rightarrow> Inl (Uncaught TypeError))"

text \<open>Steps 1 and 2 (lines 60 to 72): start at the platform, parse the login page.\<close>

definition login_url :: string where
  "login_url = MOODLE_URL @ ''/auth/saml2/login.php?wants&idp='' @ SAML_IDP @ ''&passive=off''"

definition start_login :: "lib \<Rightarrow> session \<Rightarrow> (sso_error + jdict) \<times> session" where
  "start_login L s =
     and_then (send (Get login_url) s) (\<lambda>r s1.
       if \<not> contains ''login.microsoftonline.com'' (r_url r)
       then (Inl (ProtocolMismatch (r_url r)), s1)
       else (case find_config L (r_text r) of
               None \<Rightarrow> (Inl ParseError, s1)
             | Some blob \<Rightarrow> (load_config L blob, s1)))"

text \<open>
  Step 3 (lines 74 to 92): credential-type discovery. \<^verbatim>\<open>config["sFT"]\<close> raises \<^verbatim>\<open>KeyError\<close>
  when absent; \<^verbatim>\<open>fed_url = cred.get("Credentials", {}).get("FederationRedirectUrl", "")\<close>
  and \<^verbatim>\<open>if fed_url: err(...)\<close>. The result is the flow token.
\<close>

definition credential_type_url :: string where
  "credential_type_url = MS_BASE @ ''/common/GetCredentialType?mkt=en-US''"

definition discovery_request :: "string \<Rightarrow> jval \<Rightarrow> request" where
  "discovery_request username sft =
     PostJson credential_type_url
       [(''username'', JStr username), (''flowToken'', sft),
        (''isOtherIdpSupported'', JBool True), (''checkPhones'', JBool False)]"

definition federation_check :: "jdict \<Rightarrow> jval \<Rightarrow> sso_error + jval" where
  "federation_check cred sft =
     (case get_or cred ''Credentials'' (JObj []) of
        JObj c \<Rightarrow>
          (let fed_url = get_or c ''FederationRedirectUrl'' (JStr '''')
           in if truthy fed_url then Inl (FederationNotSupported fed_url)
              else Inr (get_or cred ''FlowToken'' sft))
      | _ \<Rightarrow> Inl (Uncaught AttributeError))"

definition discover :: "lib \<Rightarrow> string \<Rightarrow> jdict \<Rightarrow> session \<Rightarrow> (sso_error + jval) \<times> session" where
  "discover L username config s =
     (case map_of config ''sFT'' of
        None \<Rightarrow> (Inl (Uncaught (KeyError ''sFT'')), s)
      | Some sft \<Rightarrow>
          and_then (send (discovery_request username sft) s) (\<lambda>r2 s1.
            case json_loads L (r_text r2) of
              None \<Rightarrow> (Inl (Uncaught JSONDecodeError), s1)
            | Some (JObj cred) \<Rightarrow> (federation_check cred sft, s1)
            | Some _ \<Rightarrow> (Inl (Uncaught AttributeError), s1)))"

text \<open>
  Step 4 (lines 94 to 128): the password submission, and the check for an
  authentication error on the page that comes back.
\<close>

definition resolve_url :: "lib \<Rightarrow> string \<Rightarrow> jval \<Rightarrow> sso_error + string" where
  "resolve_url L base u =
     (case u of
        JStr p \<Rightarrow> Inr (if \<not> prefix ''http'' p then urljoin L base p else p)
      | _ \<Rightarrow> Inl (Uncaught AttributeError))"

definition password_request :: "string \<Rightarrow> string \<Rightarrow> string \<Rightarrow> jdict \<Rightarrow> jval \<Rightarrow> request" where
  "password_request post_url username password config flow_token =
     PostForm post_url
       [(''login'', JStr username), (''loginfmt'', JStr username), (''passwd'', JStr password),
        (''type'', JStr ''11''), (''LoginOptions'', JStr ''3''),
        (''canary'', get_or config ''canary'' (JStr '''')),
        (''ctx'', get_or config ''sCtx'' (JStr '''')),
        (''flowToken'', flow_token), (''NewUser'', JStr ''1''), (''fspost'', JStr ''0''),
        (''i13'', JStr ''0''), (''ps'', JStr ''2''), (''i19'', JStr ''16369'')]"

definition submit_password ::
  "lib \<Rightarrow> string \<Rightarrow> string \<Rightarrow> jdict \<Rightarrow> jval \<Rightarrow> session \<Rightarrow> (sso_error + response) \<times> session" where
  "submit_password L username password config flow_token s =
     (case resolve_url L (MS_BASE @ ''/'') (get_or config ''urlPost'' (JStr '''')) of
        Inl e \<Rightarrow> (Inl e, s)
      | Inr post_url \<Rightarrow>
          and_then (send (password_request post_url username password config flow_token) s)
            (\<lambda>r3 s1.
               if contains ''AADSTS'' (r_text r3)
               then (Inl (AuthFailed
                            (case find_aadsts L (r_text r3) of None \<Rightarrow> ''unknown'' | Some c \<Rightarrow> c)
                            (case find_errtxt L (r_text r3) of
                               None \<Rightarrow> ''authentication failed'' | Some m \<Rightarrow> m)), s1)
               else (Inr r3, s1)))"

text \<open>
  Step 5 (lines 130 to 156): the "stay signed in" prompt. The result is the current page
  and URL.
\<close>

definition kmsi_request :: "string \<Rightarrow> jdict \<Rightarrow> request" where
  "kmsi_request post_url2 c2 =
     PostForm post_url2
       [(''LoginOptions'', JStr ''1''), (''type'', JStr ''28''),
        (''ctx'', get_or c2 ''sCtx'' (JStr '''')), (''flowToken'', get_or c2 ''sFT'' (JStr '''')),
        (''canary'', get_or c2 ''canary'' (JStr '''')), (''i19'', JStr ''2048'')]"

definition stay_signed_in ::
  "lib \<Rightarrow> response \<Rightarrow> session \<Rightarrow> (sso_error + string \<times> string) \<times> session" where
  "stay_signed_in L r3 s =
     (let page = r_text r3
      in if contains ''KmsiInterrupt'' page \<or> contains ''StaySignedIn'' page then
           (case find_config L page of
              None \<Rightarrow> (Inr (page, r_url r3), s)
            | Some blob \<Rightarrow>
                (case load_config L blob of
                   Inl e \<Rightarrow> (Inl e, s)
                 | Inr c2 \<Rightarrow>
                     (case resolve_url L (MS_BASE @ ''/'') (get_or c2 ''urlPost'' (JStr '''')) of
                        Inl e \<Rightarrow> (Inl e, s)
                      | Inr post_url2 \<Rightarrow>
                          and_then (send (kmsi_request post_url2 c2) s)
                            (\<lambda>r4 s1. (Inr (r_text r4, r_url r4), s1)))))
         else (Inr (page, r_url r3), s))"

text \<open>Step 6 (lines 158 to 168): the auto-submitting form that carries the SAML response.\<close>

definition form_data :: "(string \<times> string option) list \<Rightarrow> (string \<times> jval) list" where
  "form_data fs = map (\<lambda>(k, v). (k, case v of None \<Rightarrow> JNull | Some x \<Rightarrow> JStr x)) fs"

definition post_saml ::
  "lib \<Rightarrow> string \<Rightarrow> string \<Rightarrow> session \<Rightarrow> (sso_error + string \<times> string) \<times> session" where
  "post_saml L page url s =
     (if contains ''SAMLResponse'' page then
        (case feed_tags FormParser_init (starttags L page) of
           Inl e \<Rightarrow> (Inl (Uncaught e), s)
         | Inr fp \<Rightarrow>
             (case action fp of
                None \<Rightarrow> (Inr (page, url), s)
              | Some a \<Rightarrow>
                  if a \<noteq> [] \<and> map_of (form_fields fp) ''SAMLResponse'' \<noteq> None then
                    and_then
                      (send (PostForm (if \<not> prefix ''http'' a then urljoin L url a else a)
                               (form_data (form_fields fp))) s)
                      (\<lambda>r5 s1. (Inr (r_text r5, r_url r5), s1))
                  else (Inr (page, url), s)))
      else (Inr (page, url), s))"

text \<open>
  Steps 7 to 11 (lines 170 to 205): the check of the final URL, the launch request, and
  the token in its redirect.
\<close>

definition launch_request :: request where
  "launch_request =
     PostForm (MOODLE_URL @ ''/admin/tool/mobile/launch.php'')
       [(''service'', JStr ''moodle_mobile_app''), (''passport'', JStr ''12345''),
        (''urlscheme'', JStr ''moodlemobile'')]"

definition token_of_redirect :: "lib \<Rightarrow> response \<Rightarrow> sso_error + string" where
  "token_of_redirect L r6 =
     (if r_status r6 \<notin> {301, 302, 303} then Inl (UnexpectedResponse (r_status r6))
      else (case find_token L (case r_location r6 of None \<Rightarrow> '''' | Some loc \<Rightarrow> loc) of
              None \<Rightarrow> Inl NoTokenInRedirect
            | Some raw \<Rightarrow>
                (case b64decode L (restore_padding raw) of
                   None \<Rightarrow> Inl (Uncaught BinasciiError)
                 | Some decoded \<Rightarrow> token_of_decoded decoded)))"

definition launch :: "lib \<Rightarrow> string \<Rightarrow> session \<Rightarrow> (sso_error + string) \<times> session" where
  "launch L url s =
     (if \<not> contains ''qmplus.qmul.ac.uk'' url then (Inl (SSOIncomplete url), s)
      else and_then (send launch_request s) (\<lambda>r6 s1. (token_of_redirect L r6, s1)))"

definition refresh_token ::
  "lib \<Rightarrow> string \<Rightarrow> string \<Rightarrow> session \<Rightarrow> (sso_error + string) \<times> session" where
  "refresh_token L username password s =
     and_then (start_login L s) (\<lambda>config s1.
     and_then (discover L username config s1) (\<lambda>flow_token s2.
     and_then (submit_password L username password config flow_token s2) (\<lambda>r3 s3.
     and_then (stay_signed_in L r3 s3) (\<lambda>(page, url) s4.
     and_then (post_saml L page url s4) (\<lambda>(page', url') s5.
     launch L url' s5)))))"

text \<open>A request that submits the password: a form post with a \<^verbatim>\<open>passwd\<close> field.\<close>

fun carries_password :: "request \<Rightarrow> bool" where
  "carries_password (PostForm u d) = (map_of d ''passwd'' \<noteq> None)"
| "carries_password _ = False"

text \<open>
  The host of a URL, as the specification's checkpoint speaks of it: the part between
  \<^verbatim>\<open>://\<close> and the next \<^verbatim>\<open>/\<close>, \<^verbatim>\<open>?\<close>, \<^verbatim>\<open>#\<close> or \<^verbatim>\<open>:\<close>. The source never computes it; it is
  defined here only to compare the specification's wording with the source's test.
\<close>

fun after_scheme :: "string \<Rightarrow> string" where
  "after_scheme [] = []"
| "after_scheme (c # cs) = (if prefix ''://'' (c # cs) then drop 2 cs else after_scheme cs)"

definition spec_url_host :: "string \<Rightarrow> string" where
  "spec_url_host u = takeWhile (\<lambda>c. c \<notin> set ''/?#:'') (after_scheme u)"

subsection \<open>A scripted library and scripted responses for concrete runs\<close>

text \<open>
  The instance below recognises only the texts of the scripted responses; it is used to
  run the flow on concrete sessions.
\<close>

definition scripted_lib :: lib where
  "scripted_lib =
     \<lparr>find_config = (\<lambda>t. if t = ''login page'' then Some ''blob'' else None),
      find_aadsts = (\<lambda>t. None),
      find_errtxt = (\<lambda>t. None),
      find_token =
        (\<lambda>loc. if loc = ''moodlemobile://token=UDo6OlQ'' then Some ''UDo6OlQ'' else None),
      json_loads =
        (\<lambda>t. if t = ''blob'' then Some (JObj [(''sFT'', JStr ''ft'')])
             else if t = ''federated''
               then Some (JObj [(''Credentials'',
                                  JObj [(''FederationRedirectUrl'', JStr ''https://adfs.example/'')])])
             else if t = ''managed'' then Some (JObj [(''FlowToken'', JStr ''ft2'')])
             else None),
      urljoin = (\<lambda>base u. base @ u),
      starttags = (\<lambda>t. []),
      b64decode = (\<lambda>raw. if raw = ''UDo6OlQ='' then Some ''P:::T'' else None)\<rparr>"

definition ms_login_page :: response where
  "ms_login_page =
     \<lparr>r_url = ''https://login.microsoftonline.com/saml2'', r_text = ''login page'',
      r_status = 200, r_location = None\<rparr>"

definition federated_reply :: response where
  "federated_reply =
     \<lparr>r_url = ''https://login.microsoftonline.com/common/GetCredentialType?mkt=en-US'',
      r_text = ''federated'', r_status = 200, r_location = None\<rparr>"

definition managed_reply :: response where
  "managed_reply =
     \<lparr>r_url = ''https://login.microsoftonline.com/common/GetCredentialType?mkt=en-US'',
      r_text = ''managed'', r_status = 200, r_location = None\<rparr>"

definition stuck_reply :: response where
  "stuck_reply =
     \<lparr>r_url = ''https://login.microsoftonline.com/kmsi?ru=https://qmplus.qmul.ac.uk/'',
      r_text = ''more information required'', r_status = 200, r_location = None\<rparr>"

definition launch_reply :: response where
  "launch_reply =
     \<lparr>r_url = ''https://qmplus.qmul.ac.uk/admin/tool/mobile/launch.php'', r_text = '''',
      r_status = 303, r_location = Some ''moodlemobile://token=UDo6OlQ''\<rparr>"

subsection \<open>The federation branch\<close>

lemma federation_run:
  assumes "replies s = r1 # r2 # rest"
    and "contains ''login.microsoftonline.com'' (r_url r1)"
    and "find_config L (r_text r1) = Some blob"
    and "json_loads L blob = Some (JObj config)"
    and "map_of config ''sFT'' = Some sft"
    and "json_loads L (r_text r2) = Some (JObj cred)"
    and "map_of cred ''Credentials'' = Some (JObj c)"
    and "map_of c ''FederationRedirectUrl'' = Some fed"
    and "truthy fed"
  shows "refresh_token L username password s
      = (Inl (FederationNotSupported fed),
         s\<lparr>replies := rest, sent := sent s @ [Get login_url, discovery_request username sft]\<rparr>)"
  using assms
  by (simp add: refresh_token_def start_login_def send_def and_then_def load_config_def
      discover_def federation_check_def get_or_def)

lemma carries_password_discovery:
  "filter carries_password (xs @ [Get login_url, discovery_request username sft])
     = filter carries_password xs"
  by (simp add: discovery_request_def)

text \<open>
  C6. When the discovery response carries a federation redirect (a value under
  \<^verbatim>\<open>Credentials.FederationRedirectUrl\<close> that the source's test \<^verbatim>\<open>if fed_url:\<close> accepts, that
  is a non-empty one), the run ends with \<open>FederationNotSupported\<close>; the only requests
  issued are the initial GET and the discovery POST, so no request that carries the
  password is issued in that run.
\<close>

theorem federation_redirect_stops_before_password:
  "replies s = r1 # r2 # rest
   \<and> contains ''login.microsoftonline.com'' (r_url r1)
   \<and> find_config L (r_text r1) = Some blob
   \<and> json_loads L blob = Some (JObj config)
   \<and> map_of config ''sFT'' = Some sft
   \<and> json_loads L (r_text r2) = Some (JObj cred)
   \<and> map_of cred ''Credentials'' = Some (JObj c)
   \<and> map_of c ''FederationRedirectUrl'' = Some fed
   \<and> truthy fed
   \<longrightarrow>
     refresh_token L username password s
       = (Inl (FederationNotSupported fed),
          s\<lparr>replies := rest, sent := sent s @ [Get login_url, discovery_request username sft]\<rparr>)
     \<and> filter carries_password (sent (snd (refresh_token L username password s)))
         = filter carries_password (sent s)"
proof (intro impI, elim conjE)
  assume a: "replies s = r1 # r2 # rest"
    "contains ''login.microsoftonline.com'' (r_url r1)"
    "find_config L (r_text r1) = Some blob"
    "json_loads L blob = Some (JObj config)"
    "map_of config ''sFT'' = Some sft"
    "json_loads L (r_text r2) = Some (JObj cred)"
    "map_of cred ''Credentials'' = Some (JObj c)"
    "map_of c ''FederationRedirectUrl'' = Some fed"
    "truthy fed"
  have r: "refresh_token L username password s
      = (Inl (FederationNotSupported fed),
         s\<lparr>replies := rest, sent := sent s @ [Get login_url, discovery_request username sft]\<rparr>)"
    by (rule federation_run [OF a])
  show "refresh_token L username password s
       = (Inl (FederationNotSupported fed),
          s\<lparr>replies := rest, sent := sent s @ [Get login_url, discovery_request username sft]\<rparr>)
     \<and> filter carries_password (sent (snd (refresh_token L username password s)))
         = filter carries_password (sent s)"
    by (simp add: r discovery_request_def)
qed

theorem federation_redirect_stops_before_password_witness:
  "replies \<lparr>replies = [ms_login_page, federated_reply, stuck_reply], sent = []\<rparr>
     = ms_login_page # federated_reply # [stuck_reply]
   \<and> contains ''login.microsoftonline.com'' (r_url ms_login_page)
   \<and> find_config scripted_lib (r_text ms_login_page) = Some ''blob''
   \<and> json_loads scripted_lib ''blob'' = Some (JObj [(''sFT'', JStr ''ft'')])
   \<and> map_of [(''sFT'', JStr ''ft'')] ''sFT'' = Some (JStr ''ft'')
   \<and> json_loads scripted_lib (r_text federated_reply)
       = Some (JObj [(''Credentials'',
                       JObj [(''FederationRedirectUrl'', JStr ''https://adfs.example/'')])])
   \<and> truthy (JStr ''https://adfs.example/'')
   \<and> refresh_token scripted_lib ''user'' ''pw''
        \<lparr>replies = [ms_login_page, federated_reply, stuck_reply], sent = []\<rparr>
      = (Inl (FederationNotSupported (JStr ''https://adfs.example/'')),
         \<lparr>replies = [stuck_reply],
          sent = [Get login_url, discovery_request ''user'' (JStr ''ft'')]\<rparr>)"
proof -
  have h: "replies \<lparr>replies = [ms_login_page, federated_reply, stuck_reply], sent = []\<rparr>
     = ms_login_page # federated_reply # [stuck_reply]
   \<and> contains ''login.microsoftonline.com'' (r_url ms_login_page)
   \<and> find_config scripted_lib (r_text ms_login_page) = Some ''blob''
   \<and> json_loads scripted_lib ''blob'' = Some (JObj [(''sFT'', JStr ''ft'')])
   \<and> map_of [(''sFT'', JStr ''ft'')] ''sFT'' = Some (JStr ''ft'')
   \<and> json_loads scripted_lib (r_text federated_reply)
       = Some (JObj [(''Credentials'',
                       JObj [(''FederationRedirectUrl'', JStr ''https://adfs.example/'')])])
   \<and> map_of [(''Credentials'',
               JObj [(''FederationRedirectUrl'', JStr ''https://adfs.example/'')])] ''Credentials''
       = Some (JObj [(''FederationRedirectUrl'', JStr ''https://adfs.example/'')])
   \<and> map_of [(''FederationRedirectUrl'', JStr ''https://adfs.example/'')]
        ''FederationRedirectUrl'' = Some (JStr ''https://adfs.example/'')
   \<and> truthy (JStr ''https://adfs.example/'')"
    by (simp add: scripted_lib_def ms_login_page_def federated_reply_def)
  show ?thesis
    using h federation_redirect_stops_before_password
      [of "\<lparr>replies = [ms_login_page, federated_reply, stuck_reply], sent = []\<rparr>"
        ms_login_page federated_reply "[stuck_reply]" scripted_lib "''blob''"
        "[(''sFT'', JStr ''ft'')]" "JStr ''ft''"
        "[(''Credentials'', JObj [(''FederationRedirectUrl'', JStr ''https://adfs.example/'')])]"
        "[(''FederationRedirectUrl'', JStr ''https://adfs.example/'')]"
        "JStr ''https://adfs.example/''" "''user''" "''pw''"]
    by simp
qed

subsection \<open>The re-entry checkpoint\<close>

lemma contains_prefix: "prefix n xs \<Longrightarrow> contains n xs"
  by (cases xs) auto

lemma contains_suffix: "suffix ys xs \<Longrightarrow> contains n ys \<Longrightarrow> contains n xs"
proof (induction xs)
  case Nil
  then show ?case by simp
next
  case (Cons x xs)
  from Cons.prems(1) have "ys = x # xs \<or> suffix ys xs"
    by (simp add: suffix_Cons)
  then show ?case
  proof
    assume "ys = x # xs"
    with Cons.prems(2) show ?thesis by simp
  next
    assume "suffix ys xs"
    with Cons show ?thesis by simp
  qed
qed

lemma suffix_after_scheme: "suffix (after_scheme u) u"
proof (induction u)
  case Nil
  then show ?case by simp
next
  case (Cons c cs)
  have "suffix (drop 2 cs) (c # cs)"
    by (rule suffix_ConsI) (rule suffix_drop)
  moreover have "suffix (after_scheme cs) (c # cs)"
    by (rule suffix_ConsI) (rule Cons.IH)
  ultimately show ?case by simp
qed

lemma host_contained: "contains (spec_url_host u) u"
proof -
  have "prefix (spec_url_host u) (after_scheme u)"
    unfolding spec_url_host_def by (rule takeWhile_is_prefix)
  then have "contains (spec_url_host u) (after_scheme u)"
    by (rule contains_prefix)
  with suffix_after_scheme show ?thesis
    by (rule contains_suffix)
qed

lemma token_of_redirect_not_incomplete: "token_of_redirect L r6 \<noteq> Inl (SSOIncomplete u)"
  by (auto simp: token_of_redirect_def token_of_decoded_def Let_def split: option.splits)

lemma launch_passes:
  assumes "contains ''qmplus.qmul.ac.uk'' url"
  shows "sent (snd (launch L url s)) = sent s @ [launch_request]"
    and "fst (launch L url s) \<noteq> Inl (SSOIncomplete u)"
  using assms token_of_redirect_not_incomplete [of L _ u]
  by (auto simp: launch_def send_def and_then_def split: list.splits)

text \<open>
  C7, as the source has it. The checkpoint is the substring test
  \<^verbatim>\<open>"qmplus.qmul.ac.uk" not in url\<close>: the flow fails with \<open>SSOIncomplete\<close> exactly when the
  current URL does not contain that text, and otherwise issues the launch request next.
  A URL whose host is the platform's contains the text, so it passes.
\<close>

theorem reentry_checkpoint_is_substring_test:
  "(\<not> contains ''qmplus.qmul.ac.uk'' url \<longrightarrow> launch L url s = (Inl (SSOIncomplete url), s))
   \<and> (contains ''qmplus.qmul.ac.uk'' url \<longrightarrow>
        sent (snd (launch L url s)) = sent s @ [launch_request]
        \<and> fst (launch L url s) \<noteq> Inl (SSOIncomplete url))
   \<and> (spec_url_host url = ''qmplus.qmul.ac.uk'' \<longrightarrow> contains ''qmplus.qmul.ac.uk'' url)"
  using launch_passes(1) [of url L s] launch_passes(2) [of url L s url] host_contained [of url]
  by (auto simp: launch_def)

theorem reentry_checkpoint_is_substring_test_witness:
  "\<not> contains ''qmplus.qmul.ac.uk'' ''https://login.microsoftonline.com/error''
   \<and> launch scripted_lib ''https://login.microsoftonline.com/error''
        \<lparr>replies = [launch_reply], sent = []\<rparr>
      = (Inl (SSOIncomplete ''https://login.microsoftonline.com/error''),
         \<lparr>replies = [launch_reply], sent = []\<rparr>)
   \<and> spec_url_host ''https://qmplus.qmul.ac.uk/my/'' = ''qmplus.qmul.ac.uk''
   \<and> contains ''qmplus.qmul.ac.uk'' ''https://qmplus.qmul.ac.uk/my/''
   \<and> sent (snd (launch scripted_lib ''https://qmplus.qmul.ac.uk/my/''
        \<lparr>replies = [launch_reply], sent = []\<rparr>)) = [launch_request]"
proof -
  have a: "\<not> contains ''qmplus.qmul.ac.uk'' ''https://login.microsoftonline.com/error''"
    by code_simp
  have b: "spec_url_host ''https://qmplus.qmul.ac.uk/my/'' = ''qmplus.qmul.ac.uk''"
    by code_simp
  show ?thesis
    using a b
      reentry_checkpoint_is_substring_test
        [of "''https://login.microsoftonline.com/error''" scripted_lib
          "\<lparr>replies = [launch_reply], sent = []\<rparr>"]
      reentry_checkpoint_is_substring_test
        [of "''https://qmplus.qmul.ac.uk/my/''" scripted_lib
          "\<lparr>replies = [launch_reply], sent = []\<rparr>"]
    by simp
qed

text \<open>
  The claim as the specification states it (every final URL whose host is not the
  platform's aborts) fails: the run below ends on a page of the identity provider whose
  URL mentions the platform in its query, passes the checkpoint, issues the launch
  request and returns a token.
\<close>

theorem reentry_host_mismatch_counterexample:
  "spec_url_host (r_url stuck_reply) = ''login.microsoftonline.com''
   \<and> fst (refresh_token scripted_lib ''user'' ''pw''
        \<lparr>replies = [ms_login_page, managed_reply, stuck_reply, launch_reply], sent = []\<rparr>)
      = Inr ''T''
   \<and> last (sent (snd (refresh_token scripted_lib ''user'' ''pw''
        \<lparr>replies = [ms_login_page, managed_reply, stuck_reply, launch_reply], sent = []\<rparr>)))
      = launch_request"
  by code_simp

section \<open>\<^verbatim>\<open>email_dashboard.py\<close>: \<^verbatim>\<open>TokenManager\<close>\<close>

text \<open>
  The state is the \<^verbatim>\<open>TokenManager\<close> object (\<^verbatim>\<open>email_address\<close>, \<^verbatim>\<open>client_id\<close>, \<^verbatim>\<open>_creds\<close>, here
  \<open>creds\<close>) together with what its methods read and change outside it: the credential
  directory (its permission bits, \<open>None\<close> when it does not exist), the credential file
  (permission bits and content, \<open>None\<close> when it does not exist), the wall clock read by
  \<^verbatim>\<open>time.time()\<close>, the scripted replies of the token endpoint, and a journal of the sleeps
  and requests made. The content of the file is what \<^verbatim>\<open>json.loads(read_text())\<close> yields:
  \<open>Garbled\<close> when reading or decoding raises (\<^verbatim>\<open>OSError\<close>, \<^verbatim>\<open>JSONDecodeError\<close>), the decoded
  value otherwise. Creating the directory, writing the file and changing permission bits
  are taken to succeed.
\<close>

datatype file_content = Garbled | Json jval

datatype reply =
    Unreachable                   \<comment> \<open>\<^verbatim>\<open>requests.post\<close> raises a \<^verbatim>\<open>RequestException\<close>\<close>
  | Reply nat "jval option"       \<comment> \<open>status code, and \<^verbatim>\<open>resp.json()\<close> (\<open>None\<close> when not JSON)\<close>

datatype event =
    Sleep real
  | Post string jdict

record tm_state =
  email_address :: string
  client_id :: string
  creds :: jdict
  cred_dir :: "nat option"
  cred_file :: "(nat \<times> file_content) option"
  clock :: real
  net :: "reply list"
  journal :: "event list"

definition TOKEN_EXPIRY_MARGIN :: real where
  "TOKEN_EXPIRY_MARGIN = 300"

definition TENANT :: string where
  "TENANT = ''organizations''"

definition SCOPES :: string where
  "SCOPES = ''https://outlook.office365.com/IMAP.AccessAsUser.All offline_access''"

definition token_url :: string where
  "token_url = ''https://login.microsoftonline.com/'' @ TENANT @ ''/oauth2/v2.0/token''"

text \<open>A JSON value used as a number (\<^verbatim>\<open>True\<close> and \<^verbatim>\<open>False\<close> count as 1 and 0).\<close>

fun num_of :: "jval \<Rightarrow> real option" where
  "num_of (JNum x) = Some x"
| "num_of (JBool b) = Some (if b then 1 else 0)"
| "num_of _ = None"

subsection \<open>Persistence\<close>

text \<open>
  \<^verbatim>\<open>_save\<close> (lines 61 to 74). The directory is created with mode \<^verbatim>\<open>0o700\<close> (448); the file
  is read if it exists, a file that cannot be read or decoded counts as empty; the
  account's entry is assigned and the whole mapping written back with mode \<^verbatim>\<open>0o600\<close>
  (384). A file that decodes to something other than an object makes the item assignment
  raise \<^verbatim>\<open>TypeError\<close>.
\<close>

definition save :: "tm_state \<Rightarrow> (pyexc + unit) \<times> tm_state" where
  "save w =
     (let w1 = w\<lparr>cred_dir := Some 448\<rparr>;
          write = (\<lambda>all_creds.
            (Inr (), w1\<lparr>cred_file :=
               Some (384, Json (JObj (AList.update (email_address w) (JObj (creds w)) all_creds)))\<rparr>))
      in case cred_file w of
           None \<Rightarrow> write []
         | Some (m, Garbled) \<Rightarrow> write []
         | Some (m, Json (JObj all_creds)) \<Rightarrow> write all_creds
         | Some (m, Json _) \<Rightarrow> (Inl TypeError, w1))"

text \<open>
  \<^verbatim>\<open>clear\<close> (lines 76 to 87). \<^verbatim>\<open>all_creds.pop(self.email_address, None)\<close> on a decoded list
  raises \<^verbatim>\<open>TypeError\<close>, on any other value that is not an object \<^verbatim>\<open>AttributeError\<close>; neither is
  caught.
\<close>

definition clear :: "tm_state \<Rightarrow> (pyexc + unit) \<times> tm_state" where
  "clear w =
     (let w1 = w\<lparr>creds := []\<rparr>
      in case cred_file w of
           None \<Rightarrow> (Inr (), w1)
         | Some (m, Garbled) \<Rightarrow> (Inr (), w1\<lparr>cred_file := None\<rparr>)
         | Some (m, Json (JObj all_creds)) \<Rightarrow>
             (let remaining = AList.delete (email_address w) all_creds
              in if remaining \<noteq> []
                 then (Inr (), w1\<lparr>cred_file := Some (m, Json (JObj remaining))\<rparr>)
                 else (Inr (), w1\<lparr>cred_file := None\<rparr>))
         | Some (m, Json (JArr xs)) \<Rightarrow> (Inl TypeError, w1)
         | Some (m, Json _) \<Rightarrow> (Inl AttributeError, w1))"

definition auth_type :: "tm_state \<Rightarrow> jval" where
  "auth_type w = get (creds w) ''auth_type''"

text \<open>\<^verbatim>\<open>save_basic\<close> (lines 106 to 108).\<close>

definition save_basic :: "string \<Rightarrow> tm_state \<Rightarrow> (pyexc + unit) \<times> tm_state" where
  "save_basic password w =
     save (w\<lparr>creds := [(''auth_type'', JStr ''basic''), (''password'', JStr password)]\<rparr>)"

subsection \<open>OAuth2 access token\<close>

text \<open>
  \<^verbatim>\<open>_refresh_token\<close> (lines 127 to 153), here \<open>refresh_token_tm\<close>. The \<^verbatim>\<open>try\<close> block catches
  \<^verbatim>\<open>requests.RequestException\<close> only: a transport failure, the \<^verbatim>\<open>HTTPError\<close> that
  \<^verbatim>\<open>raise_for_status\<close> raises for a status from 400 to 599, and the decoding error of
  \<^verbatim>\<open>resp.json()\<close>, which is a \<^verbatim>\<open>RequestException\<close> in \<^verbatim>\<open>requests\<close> since version 2.27. A
  request with no scripted reply left counts as a transport failure.
\<close>

definition refresh_request :: "tm_state \<Rightarrow> jval \<Rightarrow> event" where
  "refresh_request w refresh =
     Post token_url
       [(''client_id'', JStr (client_id w)), (''grant_type'', JStr ''refresh_token''),
        (''refresh_token'', refresh), (''scope'', JStr SCOPES)]"

definition store_refreshed :: "jdict \<Rightarrow> jval \<Rightarrow> tm_state \<Rightarrow> (pyexc + jval) \<times> tm_state" where
  "store_refreshed token_data refresh w =
     (case map_of token_data ''access_token'' of
        None \<Rightarrow> (Inl (KeyError ''access_token''), w)
      | Some tok \<Rightarrow>
          (case num_of (get_or token_data ''expires_in'' (JNum 3600)) of
             None \<Rightarrow> (Inl TypeError, w)
           | Some expires_in \<Rightarrow>
               and_then
                 (save (w\<lparr>creds :=
                    AList.update ''expires_at'' (JNum (clock w + expires_in))
                      (AList.update ''refresh_token'' (get_or token_data ''refresh_token'' refresh)
                        (AList.update ''access_token'' tok (creds w)))\<rparr>))
                 (\<lambda>u w1. (Inr tok, w1))))"

definition refresh_token_tm :: "tm_state \<Rightarrow> (pyexc + jval) \<times> tm_state" where
  "refresh_token_tm w =
     (let refresh = get (creds w) ''refresh_token''
      in if \<not> truthy refresh then (Inr JNull, w)
         else
           (let w1 = w\<lparr>journal := journal w @ [refresh_request w refresh]\<rparr>
            in case net w of
                 [] \<Rightarrow> (Inr JNull, w1)
               | Unreachable # rs \<Rightarrow> (Inr JNull, w1\<lparr>net := rs\<rparr>)
               | Reply status body # rs \<Rightarrow>
                   (let w2 = w1\<lparr>net := rs\<rparr>
                    in if 400 \<le> status \<and> status < 600 then (Inr JNull, w2)
                       else (case body of
                               None \<Rightarrow> (Inr JNull, w2)
                             | Some (JObj token_data) \<Rightarrow> store_refreshed token_data refresh w2
                             | Some _ \<Rightarrow> (Inl TypeError, w2)))))"

text \<open>\<^verbatim>\<open>get_access_token\<close> (lines 112 to 119) and \<^verbatim>\<open>is_token_expired\<close> (lines 121 to 125).\<close>

definition get_access_token :: "tm_state \<Rightarrow> (pyexc + jval) \<times> tm_state" where
  "get_access_token w =
     (if auth_type w \<noteq> JStr ''oauth2'' then (Inr JNull, w)
      else (case num_of (get_or (creds w) ''expires_at'' (JNum 0)) of
              None \<Rightarrow> (Inl TypeError, w)
            | Some expires_at \<Rightarrow>
                if clock w < expires_at - TOKEN_EXPIRY_MARGIN
                then (Inr (get (creds w) ''access_token''), w)
                else refresh_token_tm w))"

definition is_token_expired :: "tm_state \<Rightarrow> pyexc + bool" where
  "is_token_expired w =
     (if auth_type w \<noteq> JStr ''oauth2'' then Inr True
      else (case num_of (get_or (creds w) ''expires_at'' (JNum 0)) of
              None \<Rightarrow> Inl TypeError
            | Some expires_at \<Rightarrow> Inr (clock w \<ge> expires_at - TOKEN_EXPIRY_MARGIN)))"

text \<open>
  A refresh request fails when it raises a \<^verbatim>\<open>RequestException\<close>: no reply, an error status
  (400 to 599), or a body that is not JSON.
\<close>

fun failed_reply :: "reply \<Rightarrow> bool" where
  "failed_reply Unreachable = True"
| "failed_reply (Reply status body) = (400 \<le> status \<and> status < 600 \<or> body = None)"

definition request_fails :: "tm_state \<Rightarrow> bool" where
  "request_fails w = (case net w of [] \<Rightarrow> True | r # rs \<Rightarrow> failed_reply r)"

subsection \<open>Device-code flow\<close>

text \<open>\<^verbatim>\<open>x in v\<close> for a string \<open>x\<close> and a decoded JSON value \<open>v\<close>.\<close>

fun py_in :: "string \<Rightarrow> jval \<Rightarrow> pyexc + bool" where
  "py_in x (JStr s) = Inr (contains x s)"
| "py_in x (JArr xs) = Inr (JStr x \<in> set xs)"
| "py_in x (JObj d) = Inr (map_of d x \<noteq> None)"
| "py_in x _ = Inl TypeError"

text \<open>
  One pass through the body of the \<^verbatim>\<open>while\<close> loop of \<^verbatim>\<open>run_device_code_flow\<close> (lines 181 to
  209) either leaves the function (\<open>Done\<close>: a returned token or a raised exception) or
  reaches \<^verbatim>\<open>continue\<close> (\<open>Again\<close>, with the interval to use next). \<^verbatim>\<open>time.sleep(interval)\<close>
  advances the clock by the interval and raises \<^verbatim>\<open>ValueError\<close> for a negative one; the
  clock advances by sleeping only.
\<close>

datatype outcome =
    Done "pyexc + jval" tm_state
  | Again real tm_state

definition poll_request :: "tm_state \<Rightarrow> jval \<Rightarrow> event" where
  "poll_request w device_code =
     Post token_url
       [(''client_id'', JStr (client_id w)),
        (''grant_type'', JStr ''urn:ietf:params:oauth:grant-type:device_code''),
        (''device_code'', device_code)]"

text \<open>Lines 190 to 199: the body holds an access token.\<close>

definition on_token :: "jdict \<Rightarrow> jval \<Rightarrow> tm_state \<Rightarrow> (pyexc + jval) \<times> tm_state" where
  "on_token body tok w =
     (case num_of (get_or body ''expires_in'' (JNum 3600)) of
        None \<Rightarrow> (Inl TypeError, w)
      | Some expires_in \<Rightarrow>
          and_then
            (save (w\<lparr>creds :=
               [(''auth_type'', JStr ''oauth2''), (''access_token'', tok),
                (''refresh_token'', get body ''refresh_token''),
                (''expires_at'', JNum (clock w + expires_in))]\<rparr>))
            (\<lambda>u w1. (Inr tok, w1)))"

text \<open>Lines 190 to 209, for a body that is a JSON object.\<close>

definition on_body :: "jdict \<Rightarrow> real \<Rightarrow> tm_state \<Rightarrow> outcome" where
  "on_body body interval w =
     (case map_of body ''access_token'' of
        Some tok \<Rightarrow> (case on_token body tok w of (r, w1) \<Rightarrow> Done r w1)
      | None \<Rightarrow>
          (let err = get_or body ''error'' (JStr '''')
           in if err = JStr ''authorization_pending'' then Again interval w
              else if err = JStr ''slow_down'' then Again (interval + 5) w
              else (case py_in ''AADSTS65001'' (get_or body ''error_description'' (JStr '''')) of
                      Inl e \<Rightarrow> Done (Inl e) w
                    | Inr True \<Rightarrow> Done (Inl (SystemExit 1)) w
                    | Inr False \<Rightarrow>
                        Done (Inl (RuntimeError err
                                     (get_or body ''error_description'' (JStr '''')))) w)))"

text \<open>
  A body that is JSON but not an object: \<^verbatim>\<open>"access_token" in body\<close> raises \<^verbatim>\<open>TypeError\<close> on a
  number, a truth value or \<^verbatim>\<open>null\<close>; on a string or a list it is a membership test, after
  which \<^verbatim>\<open>body["access_token"]\<close> raises \<^verbatim>\<open>TypeError\<close> or \<^verbatim>\<open>body.get\<close> raises
  \<^verbatim>\<open>AttributeError\<close>.
\<close>

definition on_other_body :: "jval \<Rightarrow> tm_state \<Rightarrow> outcome" where
  "on_other_body v w =
     (case py_in ''access_token'' v of
        Inl e \<Rightarrow> Done (Inl e) w
      | Inr True \<Rightarrow> Done (Inl TypeError) w
      | Inr False \<Rightarrow> Done (Inl AttributeError) w)"

definition poll_step :: "jdict \<Rightarrow> real \<Rightarrow> tm_state \<Rightarrow> outcome" where
  "poll_step dc interval w =
     (if interval < 0 then Done (Inl ValueError) w
      else
        (let w1 = w\<lparr>clock := clock w + interval, journal := journal w @ [Sleep interval]\<rparr>
         in case map_of dc ''device_code'' of
              None \<Rightarrow> Done (Inl (KeyError ''device_code'')) w1
            | Some device_code \<Rightarrow>
                (let w2 = w1\<lparr>journal := journal w1 @ [poll_request w device_code]\<rparr>
                 in case net w of
                      [] \<Rightarrow> Done (Inl RequestException) w2
                    | Unreachable # rs \<Rightarrow> Done (Inl RequestException) (w2\<lparr>net := rs\<rparr>)
                    | Reply status None # rs \<Rightarrow> Done (Inl JSONDecodeError) (w2\<lparr>net := rs\<rparr>)
                    | Reply status (Some (JObj body)) # rs \<Rightarrow>
                        on_body body interval (w2\<lparr>net := rs\<rparr>)
                    | Reply status (Some v) # rs \<Rightarrow> on_other_body v (w2\<lparr>net := rs\<rparr>))))"

text \<open>
  The loop ends: a pass that reaches \<^verbatim>\<open>continue\<close> has consumed one scripted reply, and a
  request with no reply left raises.
\<close>

lemma save_net: "net (snd (save w)) = net w"
  by (auto simp: save_def Let_def split: option.splits file_content.splits jval.splits)

lemma on_body_again: "on_body body interval w = Again i w' \<Longrightarrow> w' = w"
  by (auto simp: on_body_def Let_def split: option.splits prod.splits sum.splits if_splits bool.splits)

lemma on_other_body_done: "on_other_body v w \<noteq> Again i w'"
  by (auto simp: on_other_body_def split: sum.splits bool.splits)

lemma poll_step_again:
  "poll_step dc interval w = Again i w' \<Longrightarrow> length (net w') < length (net w)"
  by (auto simp: poll_step_def Let_def on_other_body_done
      split: if_splits option.splits list.splits reply.splits jval.splits
      dest!: on_body_again)

function poll_loop :: "jdict \<Rightarrow> real \<Rightarrow> real \<Rightarrow> tm_state \<Rightarrow> (pyexc + jval) \<times> tm_state" where
  "poll_loop dc interval expires_at_poll w =
     (if clock w < expires_at_poll then
        (case poll_step dc interval w of
           Done r w1 \<Rightarrow> (r, w1)
         | Again interval1 w1 \<Rightarrow> poll_loop dc interval1 expires_at_poll w1)
      else (Inl TimeoutError, w))"
  by pat_completeness auto
termination
  by (relation "measure (\<lambda>(dc, interval, expires_at_poll, w). length (net w))")
     (auto dest: poll_step_again)

declare poll_loop.simps [simp del]

text \<open>
  Lines 177 to 211, from the decoded device-code response \<open>dc\<close> on: the interval and the
  deadline are read from \<open>dc\<close>, then the loop runs. An interval that is not a number
  makes the first \<^verbatim>\<open>time.sleep\<close> raise \<^verbatim>\<open>TypeError\<close>, if the loop is entered at all.
\<close>

definition poll_for_token :: "jdict \<Rightarrow> tm_state \<Rightarrow> (pyexc + jval) \<times> tm_state" where
  "poll_for_token dc w =
     (case num_of (get_or dc ''expires_in'' (JNum 900)) of
        None \<Rightarrow> (Inl TypeError, w)
      | Some expires_in \<Rightarrow>
          (case num_of (get_or dc ''interval'' (JNum 5)) of
             None \<Rightarrow> (if clock w < clock w + expires_in then Inl TypeError else Inl TimeoutError, w)
           | Some interval \<Rightarrow> poll_loop dc interval (clock w + expires_in) w))"

subsection \<open>Predicates and scripted states for concrete runs\<close>

fun is_obj :: "jval \<Rightarrow> bool" where
  "is_obj (JObj d) = True"
| "is_obj _ = False"

text \<open>The credential file, if it exists and decodes, holds a JSON object: \<^verbatim>\<open>_save\<close> succeeds.\<close>

definition savable :: "tm_state \<Rightarrow> bool" where
  "savable w = (case cred_file w of Some (m, Json v) \<Rightarrow> is_obj v | _ \<Rightarrow> True)"

text \<open>A token-endpoint body that reports \<^verbatim>\<open>authorization_pending\<close> and carries no token.\<close>

definition is_pending :: "jdict \<Rightarrow> bool" where
  "is_pending body =
     (map_of body ''access_token'' = None
      \<and> map_of body ''error'' = Some (JStr ''authorization_pending''))"

fun is_sleep :: "event \<Rightarrow> bool" where
  "is_sleep (Sleep d) = True"
| "is_sleep (Post u d) = False"

fun is_post :: "event \<Rightarrow> bool" where
  "is_post (Post u d) = True"
| "is_post (Sleep d) = False"

definition pending_body :: jdict where
  "pending_body = [(''error'', JStr ''authorization_pending'')]"

definition pending_reply :: reply where
  "pending_reply = Reply 400 (Some (JObj pending_body))"

definition token_body :: jdict where
  "token_body =
     [(''access_token'', JStr ''tok''), (''refresh_token'', JStr ''rt''),
      (''expires_in'', JNum 3600)]"

definition token_reply :: reply where
  "token_reply = Reply 200 (Some (JObj token_body))"

definition device_session :: jdict where
  "device_session = [(''device_code'', JStr ''dev'')]"

definition example_state :: "reply list \<Rightarrow> tm_state" where
  "example_state rs =
     \<lparr>email_address = ''student@qmul.ac.uk'', client_id = ''client'', creds = [],
      cred_dir = None, cred_file = None, clock = 1000, net = rs, journal = []\<rparr>"

definition oauth_state :: "real \<Rightarrow> reply list \<Rightarrow> tm_state" where
  "oauth_state expires_at rs =
     \<lparr>email_address = ''student@qmul.ac.uk'', client_id = ''client'',
      creds = [(''auth_type'', JStr ''oauth2''), (''access_token'', JStr ''old''),
               (''refresh_token'', JStr ''rt''), (''expires_at'', JNum expires_at)],
      cred_dir = Some 448, cred_file = None, clock = 1000, net = rs, journal = []\<rparr>"

section \<open>Properties of the credential store\<close>

lemma delete_empty_iff: "AList.delete k al = [] \<longleftrightarrow> fst ` set al \<subseteq> {k}"
  by (induction al) (auto simp: AList.delete_eq)

text \<open>
  C8. For a credential file that holds a mapping \<open>all_creds\<close> of accounts to entries,
  \<^verbatim>\<open>clear\<close> succeeds, empties the object's own credentials and removes only the account's
  entry: what is left is \<open>all_creds\<close> without the pairs keyed by the account, every other
  entry unchanged and in place. If anything is left the file is rewritten with exactly
  that; if nothing is left (the account's was the only entry, or there was none) the
  file is deleted.
\<close>

theorem clear_removes_only_account:
  "clear (w\<lparr>cred_file := Some (m, Json (JObj all_creds))\<rparr>)
     = (Inr (),
        w\<lparr>creds := [],
          cred_file :=
            (if AList.delete (email_address w) all_creds \<noteq> []
             then Some (m, Json (JObj (AList.delete (email_address w) all_creds)))
             else None)\<rparr>)
   \<and> AList.delete (email_address w) all_creds
       = filter (\<lambda>p. fst p \<noteq> email_address w) all_creds
   \<and> map_of (AList.delete (email_address w) all_creds)
       = (map_of all_creds)(email_address w := None)
   \<and> (AList.delete (email_address w) all_creds = [] \<longleftrightarrow> fst ` set all_creds \<subseteq> {email_address w})"
proof (intro conjI)
  show "clear (w\<lparr>cred_file := Some (m, Json (JObj all_creds))\<rparr>)
     = (Inr (),
        w\<lparr>creds := [],
          cred_file :=
            (if AList.delete (email_address w) all_creds \<noteq> []
             then Some (m, Json (JObj (AList.delete (email_address w) all_creds)))
             else None)\<rparr>)"
    by (simp add: clear_def Let_def)
  show "AList.delete (email_address w) all_creds
       = filter (\<lambda>p. fst p \<noteq> email_address w) all_creds"
    by (induction all_creds) (auto simp: AList.delete_eq)
  show "map_of (AList.delete (email_address w) all_creds)
       = (map_of all_creds)(email_address w := None)"
    by (rule AList.delete_conv')
  show "AList.delete (email_address w) all_creds = [] \<longleftrightarrow> fst ` set all_creds \<subseteq> {email_address w}"
    by (rule delete_empty_iff)
qed

text \<open>
  C10. \<^verbatim>\<open>save_basic\<close> succeeds whenever the credential file holds a mapping, does not exist
  or cannot be decoded, and leaves the account's entry equal to exactly
  \<^verbatim>\<open>{"auth_type": "basic", "password": password}\<close>, in the object and in the file: whatever
  the entry held before (OAuth2 fields included) is gone, and the other accounts'
  entries are as they were.
\<close>

theorem save_basic_replaces_entry:
  "save_basic password (w\<lparr>cred_file := Some (m, Json (JObj all_creds))\<rparr>)
     = (Inr (),
        w\<lparr>creds := [(''auth_type'', JStr ''basic''), (''password'', JStr password)],
          cred_dir := Some 448,
          cred_file := Some (384, Json (JObj
            (AList.update (email_address w)
               (JObj [(''auth_type'', JStr ''basic''), (''password'', JStr password)])
               all_creds)))\<rparr>)
   \<and> map_of (AList.update (email_address w)
               (JObj [(''auth_type'', JStr ''basic''), (''password'', JStr password)])
               all_creds)
       = (map_of all_creds)(email_address w \<mapsto>
            JObj [(''auth_type'', JStr ''basic''), (''password'', JStr password)])
   \<and> save_basic password (w\<lparr>cred_file := None\<rparr>)
       = (Inr (),
          w\<lparr>creds := [(''auth_type'', JStr ''basic''), (''password'', JStr password)],
            cred_dir := Some 448,
            cred_file := Some (384, Json (JObj
              [(email_address w,
                JObj [(''auth_type'', JStr ''basic''), (''password'', JStr password)])]))\<rparr>)
   \<and> save_basic password (w\<lparr>cred_file := Some (m, Garbled)\<rparr>)
       = (Inr (),
          w\<lparr>creds := [(''auth_type'', JStr ''basic''), (''password'', JStr password)],
            cred_dir := Some 448,
            cred_file := Some (384, Json (JObj
              [(email_address w,
                JObj [(''auth_type'', JStr ''basic''), (''password'', JStr password)])]))\<rparr>)"
proof (intro conjI)
  show "save_basic password (w\<lparr>cred_file := Some (m, Json (JObj all_creds))\<rparr>)
     = (Inr (),
        w\<lparr>creds := [(''auth_type'', JStr ''basic''), (''password'', JStr password)],
          cred_dir := Some 448,
          cred_file := Some (384, Json (JObj
            (AList.update (email_address w)
               (JObj [(''auth_type'', JStr ''basic''), (''password'', JStr password)])
               all_creds)))\<rparr>)"
    by (simp add: save_basic_def save_def Let_def)
  show "map_of (AList.update (email_address w)
               (JObj [(''auth_type'', JStr ''basic''), (''password'', JStr password)])
               all_creds)
       = (map_of all_creds)(email_address w \<mapsto>
            JObj [(''auth_type'', JStr ''basic''), (''password'', JStr password)])"
    by (rule AList.update_conv')
  show "save_basic password (w\<lparr>cred_file := None\<rparr>)
       = (Inr (),
          w\<lparr>creds := [(''auth_type'', JStr ''basic''), (''password'', JStr password)],
            cred_dir := Some 448,
            cred_file := Some (384, Json (JObj
              [(email_address w,
                JObj [(''auth_type'', JStr ''basic''), (''password'', JStr password)])]))\<rparr>)"
    by (simp add: save_basic_def save_def Let_def)
  show "save_basic password (w\<lparr>cred_file := Some (m, Garbled)\<rparr>)
       = (Inr (),
          w\<lparr>creds := [(''auth_type'', JStr ''basic''), (''password'', JStr password)],
            cred_dir := Some 448,
            cred_file := Some (384, Json (JObj
              [(email_address w,
                JObj [(''auth_type'', JStr ''basic''), (''password'', JStr password)])]))\<rparr>)"
    by (simp add: save_basic_def save_def Let_def)
qed

text \<open>
  A concrete case: an account that held an OAuth2 token set, next to another account.
  After \<^verbatim>\<open>save_basic\<close> the file holds the password entry for the account, with none of the
  OAuth2 fields, and the other account's entry as before.
\<close>

lemma save_basic_discards_oauth_fields:
  "cred_file (snd (save_basic ''pw''
      ((oauth_state 1300 [])\<lparr>cred_file := Some (384, Json (JObj
          [(''other@qmul.ac.uk'', JObj [(''auth_type'', JStr ''basic''), (''password'', JStr ''x'')]),
           (''student@qmul.ac.uk'', JObj (creds (oauth_state 1300 [])))]))\<rparr>)))
   = Some (384, Json (JObj
       [(''other@qmul.ac.uk'', JObj [(''auth_type'', JStr ''basic''), (''password'', JStr ''x'')]),
        (''student@qmul.ac.uk'', JObj [(''auth_type'', JStr ''basic''), (''password'', JStr ''pw'')])]))"
  by (simp add: save_basic_def save_def Let_def oauth_state_def)

section \<open>Properties of the access token\<close>

lemma save_journal: "journal (snd (save w)) = journal w"
  by (auto simp: save_def Let_def split: option.splits file_content.splits jval.splits)

lemma store_refreshed_journal: "journal (snd (store_refreshed td refresh w)) = journal w"
proof -
  have "journal (snd (and_then (save w') (\<lambda>u w1. (Inr tok, w1)))) = journal w'" for w' and tok :: jval
    using save_journal [of w'] by (cases "save w'") (auto simp: and_then_def split: sum.splits)
  then show ?thesis
    by (auto simp: store_refreshed_def split: option.splits)
qed

lemma refresh_journal:
  assumes "truthy (get (creds w) ''refresh_token'')"
  shows "journal (snd (refresh_token_tm w))
    = journal w @ [refresh_request w (get (creds w) ''refresh_token'')]"
  using assms
  by (auto simp: refresh_token_tm_def Let_def store_refreshed_journal
      split: list.splits reply.splits option.splits jval.splits)

text \<open>
  C3. For an OAuth2 credential and the current time \<open>clock w\<close>: with
  \<open>expires_at = now + margin\<close> (the margin is 300 seconds) \<^verbatim>\<open>get_access_token\<close> is the refresh
  (\<^verbatim>\<open>_refresh_token\<close>), \<^verbatim>\<open>is_token_expired\<close> is true, and with a refresh token stored the
  refresh request is sent; with \<open>expires_at = now + margin + 1\<close> the stored access token is
  returned, nothing is sent or changed, and \<^verbatim>\<open>is_token_expired\<close> is false.
\<close>

theorem refresh_margin_boundary:
  "map_of (creds w) ''auth_type'' = Some (JStr ''oauth2'') \<longrightarrow>
     (map_of (creds w) ''expires_at'' = Some (JNum (clock w + TOKEN_EXPIRY_MARGIN)) \<longrightarrow>
        get_access_token w = refresh_token_tm w
        \<and> is_token_expired w = Inr True
        \<and> (truthy (get (creds w) ''refresh_token'') \<longrightarrow>
             journal (snd (get_access_token w))
               = journal w @ [refresh_request w (get (creds w) ''refresh_token'')]))
     \<and> (map_of (creds w) ''expires_at'' = Some (JNum (clock w + TOKEN_EXPIRY_MARGIN + 1)) \<longrightarrow>
          get_access_token w = (Inr (get (creds w) ''access_token''), w)
          \<and> is_token_expired w = Inr False)"
proof (intro impI conjI)
  assume a: "map_of (creds w) ''auth_type'' = Some (JStr ''oauth2'')"
  {
    assume e: "map_of (creds w) ''expires_at'' = Some (JNum (clock w + TOKEN_EXPIRY_MARGIN))"
    show g: "get_access_token w = refresh_token_tm w"
      using a e by (simp add: get_access_token_def auth_type_def get_def get_or_def)
    show "is_token_expired w = Inr True"
      using a e by (simp add: is_token_expired_def auth_type_def get_def get_or_def)
    show "journal (snd (get_access_token w))
        = journal w @ [refresh_request w (get (creds w) ''refresh_token'')]"
      if "truthy (get (creds w) ''refresh_token'')"
      using that by (simp add: g refresh_journal)
  }
  {
    assume e: "map_of (creds w) ''expires_at'' = Some (JNum (clock w + TOKEN_EXPIRY_MARGIN + 1))"
    show "get_access_token w = (Inr (get (creds w) ''access_token''), w)"
      using a e by (simp add: get_access_token_def auth_type_def get_def get_or_def)
    show "is_token_expired w = Inr False"
      using a e by (simp add: is_token_expired_def auth_type_def get_def get_or_def)
  }
qed

theorem refresh_margin_boundary_witness:
  "map_of (creds (oauth_state 1300 [])) ''auth_type'' = Some (JStr ''oauth2'')
   \<and> map_of (creds (oauth_state 1300 [])) ''expires_at''
       = Some (JNum (clock (oauth_state 1300 []) + TOKEN_EXPIRY_MARGIN))
   \<and> map_of (creds (oauth_state 1301 [])) ''expires_at''
       = Some (JNum (clock (oauth_state 1301 []) + TOKEN_EXPIRY_MARGIN + 1))
   \<and> truthy (get (creds (oauth_state 1300 [])) ''refresh_token'')
   \<and> get_access_token (oauth_state 1300 []) = refresh_token_tm (oauth_state 1300 [])
   \<and> is_token_expired (oauth_state 1300 []) = Inr True
   \<and> journal (snd (get_access_token (oauth_state 1300 [])))
       = [refresh_request (oauth_state 1300 []) (JStr ''rt'')]
   \<and> get_access_token (oauth_state 1301 []) = (Inr (JStr ''old''), oauth_state 1301 [])
   \<and> is_token_expired (oauth_state 1301 []) = Inr False"
proof -
  have a0: "map_of (creds (oauth_state 1300 [])) ''auth_type'' = Some (JStr ''oauth2'')"
    by (simp add: oauth_state_def)
  have a1: "map_of (creds (oauth_state 1301 [])) ''auth_type'' = Some (JStr ''oauth2'')"
    by (simp add: oauth_state_def)
  have e0: "map_of (creds (oauth_state 1300 [])) ''expires_at''
       = Some (JNum (clock (oauth_state 1300 []) + TOKEN_EXPIRY_MARGIN))"
    by (simp add: oauth_state_def TOKEN_EXPIRY_MARGIN_def)
  have e1: "map_of (creds (oauth_state 1301 [])) ''expires_at''
       = Some (JNum (clock (oauth_state 1301 []) + TOKEN_EXPIRY_MARGIN + 1))"
    by (simp add: oauth_state_def TOKEN_EXPIRY_MARGIN_def)
  have g: "get (creds (oauth_state 1300 [])) ''refresh_token'' = JStr ''rt''"
    by (simp add: oauth_state_def get_def get_or_def)
  have tr: "truthy (get (creds (oauth_state 1300 [])) ''refresh_token'')"
    by (simp add: g)
  have o: "get (creds (oauth_state 1301 [])) ''access_token'' = JStr ''old''"
    by (simp add: oauth_state_def get_def get_or_def)
  have j: "journal (oauth_state 1300 []) = []"
    by (simp add: oauth_state_def)
  note b0 = refresh_margin_boundary
    [of "oauth_state 1300 []", THEN mp, OF a0, THEN conjunct1, THEN mp, OF e0]
  note b1 = refresh_margin_boundary
    [of "oauth_state 1301 []", THEN mp, OF a1, THEN conjunct2, THEN mp, OF e1]
  show ?thesis
  proof (intro conjI)
    show "get_access_token (oauth_state 1300 []) = refresh_token_tm (oauth_state 1300 [])"
      by (rule b0 [THEN conjunct1])
    show "is_token_expired (oauth_state 1300 []) = Inr True"
      by (rule b0 [THEN conjunct2, THEN conjunct1])
    show "journal (snd (get_access_token (oauth_state 1300 [])))
       = [refresh_request (oauth_state 1300 []) (JStr ''rt'')]"
      using b0 [THEN conjunct2, THEN conjunct2, THEN mp, OF tr]
      by (simp only: g j append_Nil)
    show "get_access_token (oauth_state 1301 []) = (Inr (JStr ''old''), oauth_state 1301 [])"
      using b1 [THEN conjunct1] by (simp only: o)
    show "is_token_expired (oauth_state 1301 []) = Inr False"
      by (rule b1 [THEN conjunct2])
  qed (rule a0 e0 e1 tr)+
qed

lemma refresh_fails_none:
  assumes "request_fails w"
  shows "fst (refresh_token_tm w) = Inr JNull"
    and "creds (snd (refresh_token_tm w)) = creds w"
    and "cred_file (snd (refresh_token_tm w)) = cred_file w"
  using assms
  by (auto simp: refresh_token_tm_def request_fails_def Let_def split: list.splits reply.splits)

text \<open>
  C5. When the refresh request fails (no reply, a reply with a status from 400 to 599,
  or a reply whose body is not JSON), \<^verbatim>\<open>_refresh_token\<close> returns \<^verbatim>\<open>None\<close> and raises nothing,
  whatever the reply carries, and leaves the stored credentials and the credential file
  as they were; so does \<^verbatim>\<open>get_access_token\<close> for an OAuth2 credential that needs a
  refresh.
\<close>

theorem failed_refresh_returns_none:
  "request_fails w \<longrightarrow>
     fst (refresh_token_tm w) = Inr JNull
     \<and> creds (snd (refresh_token_tm w)) = creds w
     \<and> cred_file (snd (refresh_token_tm w)) = cred_file w
     \<and> (auth_type w = JStr ''oauth2''
         \<and> num_of (get_or (creds w) ''expires_at'' (JNum 0)) = Some expires_at
         \<and> \<not> clock w < expires_at - TOKEN_EXPIRY_MARGIN
        \<longrightarrow> fst (get_access_token w) = Inr JNull)"
  using refresh_fails_none [of w]
  by (simp add: get_access_token_def)

theorem failed_refresh_returns_none_witness:
  "request_fails (oauth_state 1300 [Reply 400 (Some (JObj [(''error'', JStr ''invalid_grant'')]))])
   \<and> auth_type (oauth_state 1300 [Reply 400 (Some (JObj [(''error'', JStr ''invalid_grant'')]))])
       = JStr ''oauth2''
   \<and> \<not> clock (oauth_state 1300 [Reply 400 (Some (JObj [(''error'', JStr ''invalid_grant'')]))])
         < 1300 - TOKEN_EXPIRY_MARGIN
   \<and> fst (refresh_token_tm
        (oauth_state 1300 [Reply 400 (Some (JObj [(''error'', JStr ''invalid_grant'')]))]))
      = Inr JNull
   \<and> fst (get_access_token
        (oauth_state 1300 [Reply 400 (Some (JObj [(''error'', JStr ''invalid_grant'')]))]))
      = Inr JNull"
proof -
  have h: "request_fails
      (oauth_state 1300 [Reply 400 (Some (JObj [(''error'', JStr ''invalid_grant'')]))])
   \<and> auth_type (oauth_state 1300 [Reply 400 (Some (JObj [(''error'', JStr ''invalid_grant'')]))])
       = JStr ''oauth2''
   \<and> num_of (get_or (creds
        (oauth_state 1300 [Reply 400 (Some (JObj [(''error'', JStr ''invalid_grant'')]))]))
        ''expires_at'' (JNum 0)) = Some 1300
   \<and> \<not> clock (oauth_state 1300 [Reply 400 (Some (JObj [(''error'', JStr ''invalid_grant'')]))])
         < 1300 - TOKEN_EXPIRY_MARGIN"
    by (simp add: request_fails_def oauth_state_def auth_type_def get_def get_or_def
        TOKEN_EXPIRY_MARGIN_def)
  show ?thesis
    using h failed_refresh_returns_none
      [of "oauth_state 1300 [Reply 400 (Some (JObj [(''error'', JStr ''invalid_grant'')]))]" 1300]
    by simp
qed

text \<open>
  Outside the failures above: a reply with a success status whose JSON object has no
  \<^verbatim>\<open>access_token\<close> makes \<^verbatim>\<open>token_data["access_token"]\<close> raise \<^verbatim>\<open>KeyError\<close>, which the \<^verbatim>\<open>try\<close>
  block does not catch.
\<close>

lemma unexpected_success_body_raises:
  "refresh_token_tm (oauth_state 1300 [Reply 200 (Some (JObj [(''error'', JStr ''invalid_grant'')]))])
   = (Inl (KeyError ''access_token''),
      (oauth_state 1300 [])\<lparr>journal :=
         [refresh_request (oauth_state 1300 []) (JStr ''rt'')]\<rparr>)"
  by (simp add: refresh_token_tm_def oauth_state_def get_def get_or_def Let_def
      store_refreshed_def refresh_request_def)

section \<open>Properties of the device-code polling\<close>

lemma save_savable: "savable w \<Longrightarrow> fst (save w) = Inr ()"
  by (auto simp: savable_def save_def Let_def split: option.splits file_content.splits jval.splits)

lemma on_token_ok:
  assumes "savable w" and "num_of (get_or body ''expires_in'' (JNum 3600)) = Some e"
  shows "fst (on_token body tok w) = Inr tok"
    and "journal (snd (on_token body tok w)) = journal w"
    and "net (snd (on_token body tok w)) = net w"
proof -
  let ?w = "w\<lparr>creds :=
               [(''auth_type'', JStr ''oauth2''), (''access_token'', tok),
                (''refresh_token'', get body ''refresh_token''),
                (''expires_at'', JNum (clock w + e))]\<rparr>"
  have s: "savable ?w" using assms(1) by (simp add: savable_def)
  obtain r w1 where sv: "save ?w = (r, w1)" by (cases "save ?w")
  have r: "r = Inr ()" using save_savable [OF s] sv by simp
  have j: "journal w1 = journal w" using save_journal [of ?w] sv by simp
  have n: "net w1 = net w" using save_net [of ?w] sv by simp
  have o: "on_token body tok w = (Inr tok, w1)"
    using assms(2) sv r by (simp add: on_token_def and_then_def)
  show "fst (on_token body tok w) = Inr tok" by (simp add: o)
  show "journal (snd (on_token body tok w)) = journal w" by (simp add: o j)
  show "net (snd (on_token body tok w)) = net w" by (simp add: o n)
qed

text \<open>A pending reply: one sleep, one request, and the loop goes round with the same interval.\<close>

lemma poll_pending:
  assumes "clock w < expires" and "0 \<le> interval"
    and "map_of dc ''device_code'' = Some code"
    and "net w = Reply status (Some (JObj body)) # rs"
    and "is_pending body"
  shows "poll_loop dc interval expires w
    = poll_loop dc interval expires
        (w\<lparr>clock := clock w + interval,
           journal := journal w @ [Sleep interval, poll_request w code],
           net := rs\<rparr>)"
proof -
  have "poll_step dc interval w
      = Again interval (w\<lparr>clock := clock w + interval,
           journal := journal w @ [Sleep interval, poll_request w code],
           net := rs\<rparr>)"
    using assms(2-5)
    by (simp add: poll_step_def on_body_def is_pending_def get_or_def Let_def)
  then show ?thesis
    using assms(1) by (subst poll_loop.simps) simp
qed

text \<open>
  A \<^verbatim>\<open>slow_down\<close> reply: one sleep, one request, and the loop goes round with the interval
  five seconds longer.
\<close>

lemma poll_slow_down:
  assumes "clock w < expires" and "0 \<le> interval"
    and "map_of dc ''device_code'' = Some code"
    and "net w = Reply status (Some (JObj body)) # rs"
    and "map_of body ''access_token'' = None"
    and "map_of body ''error'' = Some (JStr ''slow_down'')"
  shows "poll_loop dc interval expires w
    = poll_loop dc (interval + 5) expires
        (w\<lparr>clock := clock w + interval,
           journal := journal w @ [Sleep interval, poll_request w code],
           net := rs\<rparr>)"
proof -
  have "poll_step dc interval w
      = Again (interval + 5) (w\<lparr>clock := clock w + interval,
           journal := journal w @ [Sleep interval, poll_request w code],
           net := rs\<rparr>)"
    using assms(2-6)
    by (simp add: poll_step_def on_body_def get_or_def Let_def)
  then show ?thesis
    using assms(1) by (subst poll_loop.simps) simp
qed

text \<open>A reply with an access token: one sleep, one request, and the token is returned.\<close>

lemma poll_success:
  assumes "clock w < expires" and "0 \<le> interval"
    and "map_of dc ''device_code'' = Some code"
    and "net w = Reply status (Some (JObj body)) # rs"
    and "map_of body ''access_token'' = Some tok"
    and "num_of (get_or body ''expires_in'' (JNum 3600)) = Some e"
    and "savable w"
  shows "fst (poll_loop dc interval expires w) = Inr tok"
    and "journal (snd (poll_loop dc interval expires w))
      = journal w @ [Sleep interval, poll_request w code]"
    and "net (snd (poll_loop dc interval expires w)) = rs"
proof -
  let ?w = "w\<lparr>clock := clock w + interval,
           journal := journal w @ [Sleep interval, poll_request w code],
           net := rs\<rparr>"
  have s: "savable ?w" using assms(7) by (simp add: savable_def)
  obtain r w1 where t: "on_token body tok ?w = (r, w1)" by (cases "on_token body tok ?w")
  have st: "poll_step dc interval w = Done r w1"
    using assms(2-5) t by (simp add: poll_step_def on_body_def Let_def)
  have l: "poll_loop dc interval expires w = (r, w1)"
    using assms(1) st by (subst poll_loop.simps) simp
  show "fst (poll_loop dc interval expires w) = Inr tok"
    using on_token_ok(1) [OF s assms(6), of tok] t l by simp
  show "journal (snd (poll_loop dc interval expires w))
      = journal w @ [Sleep interval, poll_request w code]"
    using on_token_ok(2) [OF s assms(6), of tok] t l by simp
  show "net (snd (poll_loop dc interval expires w)) = rs"
    using on_token_ok(3) [OF s assms(6), of tok] t l by simp
qed

lemma pending_pending_success:
  assumes iv: "0 \<le> interval" and ex: "clock w + 2 * interval < expires"
    and dc: "map_of dc ''device_code'' = Some code"
    and sv: "savable w"
    and nt: "net w = Reply s1 (Some (JObj b1)) # Reply s2 (Some (JObj b2))
               # Reply s3 (Some (JObj b3)) # rs"
    and p1: "is_pending b1" and p2: "is_pending b2"
    and tk: "map_of b3 ''access_token'' = Some tok"
    and ei: "num_of (get_or b3 ''expires_in'' (JNum 3600)) = Some e"
  shows "fst (poll_loop dc interval expires w) = Inr tok"
    and "journal (snd (poll_loop dc interval expires w))
      = journal w @ [Sleep interval, poll_request w code, Sleep interval, poll_request w code,
                     Sleep interval, poll_request w code]"
    and "net (snd (poll_loop dc interval expires w)) = rs"
proof -
  let ?w1 = "w\<lparr>clock := clock w + interval,
           journal := journal w @ [Sleep interval, poll_request w code],
           net := Reply s2 (Some (JObj b2)) # Reply s3 (Some (JObj b3)) # rs\<rparr>"
  let ?w2 = "?w1\<lparr>clock := clock ?w1 + interval,
           journal := journal ?w1 @ [Sleep interval, poll_request ?w1 code],
           net := Reply s3 (Some (JObj b3)) # rs\<rparr>"
  have c0: "clock w < expires" using iv ex by simp
  have c1: "clock ?w1 < expires" using iv ex by simp
  have c2: "clock ?w2 < expires" using iv ex by simp
  have e1: "poll_loop dc interval expires w = poll_loop dc interval expires ?w1"
    by (rule poll_pending [OF c0 iv dc nt p1])
  have e2: "poll_loop dc interval expires ?w1 = poll_loop dc interval expires ?w2"
    by (rule poll_pending [OF c1 iv dc _ p2]) simp
  have n2: "net ?w2 = Reply s3 (Some (JObj b3)) # rs" by simp
  have s2: "savable ?w2" using sv by (simp add: savable_def)
  have pr: "poll_request ?w2 code = poll_request w code" "poll_request ?w1 code = poll_request w code"
    by (simp_all add: poll_request_def)
  show "fst (poll_loop dc interval expires w) = Inr tok"
    using poll_success(1) [OF c2 iv dc n2 tk ei s2] e1 e2 by simp
  show "journal (snd (poll_loop dc interval expires w))
      = journal w @ [Sleep interval, poll_request w code, Sleep interval, poll_request w code,
                     Sleep interval, poll_request w code]"
    using poll_success(2) [OF c2 iv dc n2 tk ei s2] e1 e2 pr by simp
  show "net (snd (poll_loop dc interval expires w)) = rs"
    using poll_success(3) [OF c2 iv dc n2 tk ei s2] e1 e2 by simp
qed

lemma scripted_poll_facts:
  "(0::real) \<le> 5 \<and> clock (example_state [pending_reply, pending_reply, token_reply]) + 2 * 5 < 1900
   \<and> map_of device_session ''device_code'' = Some (JStr ''dev'')
   \<and> savable (example_state [pending_reply, pending_reply, token_reply])
   \<and> net (example_state [pending_reply, pending_reply, token_reply])
       = Reply 400 (Some (JObj pending_body)) # Reply 400 (Some (JObj pending_body))
           # Reply 200 (Some (JObj token_body)) # []
   \<and> is_pending pending_body \<and> is_pending pending_body
   \<and> map_of token_body ''access_token'' = Some (JStr ''tok'')
   \<and> num_of (get_or token_body ''expires_in'' (JNum 3600)) = Some 3600"
  by (simp add: example_state_def device_session_def savable_def pending_reply_def
      token_reply_def is_pending_def pending_body_def token_body_def get_or_def)

lemma scripted_poll_for_token:
  "poll_for_token device_session (example_state rs) = poll_loop device_session 5 1900 (example_state rs)"
  by (simp add: poll_for_token_def device_session_def get_or_def example_state_def)

text \<open>
  C2. With the replies \<open>[pending, pending, success]\<close> scripted at the token endpoint (and
  the deadline more than two intervals away), exactly two sleep-then-poll cycles precede
  the cycle that returns the access token: each cycle sleeps the interval and then sends
  one token request, the two requests answered \<^verbatim>\<open>authorization_pending\<close> send the loop round
  with the interval unchanged, the request of the next cycle is answered with the token,
  which the loop returns, and the three replies are consumed. The journal lists the
  sleeps and requests made, in order.
\<close>

theorem pending_pending_success_three_cycles:
  "0 \<le> interval \<and> clock w + 2 * interval < expires
   \<and> map_of dc ''device_code'' = Some code
   \<and> savable w
   \<and> net w = Reply s1 (Some (JObj b1)) # Reply s2 (Some (JObj b2))
               # Reply s3 (Some (JObj b3)) # rs
   \<and> is_pending b1 \<and> is_pending b2
   \<and> map_of b3 ''access_token'' = Some tok
   \<and> num_of (get_or b3 ''expires_in'' (JNum 3600)) = Some e
   \<longrightarrow>
     fst (poll_loop dc interval expires w) = Inr tok
     \<and> journal (snd (poll_loop dc interval expires w))
        = journal w @ [Sleep interval, poll_request w code, Sleep interval, poll_request w code,
                       Sleep interval, poll_request w code]
     \<and> net (snd (poll_loop dc interval expires w)) = rs"
proof (intro impI, elim conjE)
  assume a: "0 \<le> interval" "clock w + 2 * interval < expires"
    "map_of dc ''device_code'' = Some code" "savable w"
    "net w = Reply s1 (Some (JObj b1)) # Reply s2 (Some (JObj b2))
               # Reply s3 (Some (JObj b3)) # rs"
    "is_pending b1" "is_pending b2"
    "map_of b3 ''access_token'' = Some tok"
    "num_of (get_or b3 ''expires_in'' (JNum 3600)) = Some e"
  show "fst (poll_loop dc interval expires w) = Inr tok
     \<and> journal (snd (poll_loop dc interval expires w))
        = journal w @ [Sleep interval, poll_request w code, Sleep interval, poll_request w code,
                       Sleep interval, poll_request w code]
     \<and> net (snd (poll_loop dc interval expires w)) = rs"
    using pending_pending_success [OF a] by simp
qed

theorem pending_pending_success_three_cycles_witness:
  "(0::real) \<le> 5 \<and> clock (example_state [pending_reply, pending_reply, token_reply]) + 2 * 5 < 1900
   \<and> map_of device_session ''device_code'' = Some (JStr ''dev'')
   \<and> savable (example_state [pending_reply, pending_reply, token_reply])
   \<and> is_pending pending_body
   \<and> map_of token_body ''access_token'' = Some (JStr ''tok'')
   \<and> fst (poll_loop device_session 5 1900
            (example_state [pending_reply, pending_reply, token_reply])) = Inr (JStr ''tok'')
   \<and> journal (snd (poll_loop device_session 5 1900
            (example_state [pending_reply, pending_reply, token_reply])))
       = [Sleep 5, poll_request (example_state []) (JStr ''dev''),
          Sleep 5, poll_request (example_state []) (JStr ''dev''),
          Sleep 5, poll_request (example_state []) (JStr ''dev'')]"
proof -
  have p: "poll_request (example_state (r # rs)) c = poll_request (example_state []) c" for r rs c
    by (simp add: poll_request_def example_state_def)
  have j: "journal (example_state rs) = []" for rs
    by (simp add: example_state_def)
  note h = scripted_poll_facts
  note c = mp [OF pending_pending_success_three_cycles
        [of 5 "example_state [pending_reply, pending_reply, token_reply]" 1900 device_session
          "JStr ''dev''" 400 pending_body 400 pending_body 200 token_body "[]" "JStr ''tok''" 3600]
        h]
  show ?thesis
  proof (intro conjI)
    show "fst (poll_loop device_session 5 1900
            (example_state [pending_reply, pending_reply, token_reply])) = Inr (JStr ''tok'')"
      by (rule c [THEN conjunct1])
    show "journal (snd (poll_loop device_session 5 1900
            (example_state [pending_reply, pending_reply, token_reply])))
       = [Sleep 5, poll_request (example_state []) (JStr ''dev''),
          Sleep 5, poll_request (example_state []) (JStr ''dev''),
          Sleep 5, poll_request (example_state []) (JStr ''dev'')]"
      by (simp only: c [THEN conjunct2, THEN conjunct1] p j append_Nil)
  qed (simp_all only: h)
qed

text \<open>
  The same run from the device-code response on, with the interval and the lifetime at
  their defaults: two pending cycles, then the cycle that returns the token, three
  sleeps and three token requests in all.
\<close>

lemma scripted_polling_run:
  "fst (poll_for_token device_session
          (example_state [pending_reply, pending_reply, token_reply])) = Inr (JStr ''tok'')
   \<and> length (filter is_sleep (journal (snd (poll_for_token device_session
          (example_state [pending_reply, pending_reply, token_reply]))))) = 3
   \<and> length (filter is_post (journal (snd (poll_for_token device_session
          (example_state [pending_reply, pending_reply, token_reply]))))) = 3"
proof -
  have h: "(0::real) \<le> 5"
    "clock (example_state [pending_reply, pending_reply, token_reply]) + 2 * 5 < 1900"
    "map_of device_session ''device_code'' = Some (JStr ''dev'')"
    "savable (example_state [pending_reply, pending_reply, token_reply])"
    "net (example_state [pending_reply, pending_reply, token_reply])
       = Reply 400 (Some (JObj pending_body)) # Reply 400 (Some (JObj pending_body))
           # Reply 200 (Some (JObj token_body)) # []"
    "is_pending pending_body" "is_pending pending_body"
    "map_of token_body ''access_token'' = Some (JStr ''tok'')"
    "num_of (get_or token_body ''expires_in'' (JNum 3600)) = Some 3600"
    using scripted_poll_facts by simp_all
  have j: "journal (example_state rs) = []" for rs
    by (simp add: example_state_def)
  show ?thesis
    using pending_pending_success(1) [OF h] pending_pending_success(2) [OF h]
    by (simp add: scripted_poll_for_token j poll_request_def)
qed

end
